theory Spec2Isabelle
  imports Complex_Main "HOL-Library.Sublist" "HOL-Library.Char_ord" "HOL-Library.List_Lexorder"
    "HOL-Library.AList"
begin

text \<open>
  A model of the pipeline that generates a software project with a language model: the
  progress sink, the sandboxed file access, the credential pool, the execution engine
  that drives one conversation, and the orchestrator that runs the phases in order.
  The definitions follow the Python sources named in the section titles; the properties
  proved of them come after all definitions.
\<close>

section \<open>Progress sink (viz/server.py, class VizState)\<close>

text \<open>
  The class attributes of \<open>VizState\<close> form one shared record. The deque created with
  \<open>maxlen=50\<close> is a list that drops its oldest element when an append would make it
  longer than 50. The lock only serialises the two methods and is not part of the model:
  each method is one atomic state transformation.
\<close>

record viz_state =
  active_agent :: string
  current_task :: string
  messages :: "string list"

definition viz_initial :: viz_state where
  "viz_initial = \<lparr>active_agent = ''Idle'', current_task = ''Waiting...'', messages = []\<rparr>"

text \<open>Python's \<open>xs[-n:]\<close> for a positive \<open>n\<close>: the last \<open>n\<close> elements, all of them when there are fewer.\<close>

definition last_n :: "nat \<Rightarrow> 'a list \<Rightarrow> 'a list" where
  "last_n n xs = drop (length xs - n) xs"

text \<open>\<open>deque.append\<close> on a deque with \<open>maxlen=50\<close>.\<close>

definition deque_append :: "'a list \<Rightarrow> 'a \<Rightarrow> 'a list" where
  "deque_append d x = (if length d < 50 then d @ [x] else tl d @ [x])"

text \<open>
  \<open>update(cls, agent, task, message=None)\<close>: the optional message is appended only when it
  is truthy, that is neither \<open>None\<close> nor the empty string.
\<close>

definition viz_update :: "string \<Rightarrow> string \<Rightarrow> string option \<Rightarrow> viz_state \<Rightarrow> viz_state" where
  "viz_update agent task message s =
     (let s1 = s\<lparr>active_agent := agent, current_task := task\<rparr>
      in case message of
           None \<Rightarrow> s1
         | Some m \<Rightarrow> (if m \<noteq> [] then s1\<lparr>messages := deque_append (messages s1) m\<rparr> else s1))"

record snapshot =
  snap_agent :: string
  snap_task :: string
  snap_logs :: "string list"

definition get_snapshot :: "viz_state \<Rightarrow> snapshot" where
  "get_snapshot s =
     \<lparr>snap_agent = active_agent s, snap_task = current_task s, snap_logs = last_n 5 (messages s)\<rparr>"

text \<open>A history of \<open>update\<close> calls, applied in order to a state.\<close>

fun viz_run :: "(string \<times> string \<times> string option) list \<Rightarrow> viz_state \<Rightarrow> viz_state" where
  "viz_run [] s = s"
| "viz_run ((a, t, m) # us) s = viz_run us (viz_update a t m s)"

text \<open>The log lines that a history of calls really appended, oldest first.\<close>

fun appended :: "(string \<times> string \<times> string option) list \<Rightarrow> string list" where
  "appended [] = []"
| "appended ((a, t, None) # us) = appended us"
| "appended ((a, t, Some m) # us) = (if m \<noteq> [] then m # appended us else appended us)"

section \<open>Path functions of the Python library (posixpath)\<close>

text \<open>
  \<open>core/file_system.py\<close> calls \<open>os.path.join\<close>, \<open>abspath\<close>, \<open>dirname\<close>, \<open>commonpath\<close> and
  \<open>exists\<close>. They are modelled as the POSIX implementation of the library computes them, on
  strings, with \<open>/\<close> as the separator. The Windows variant (drive letters) is not modelled.
\<close>

type_synonym path = string

definition sep :: char where
  "sep = CHR ''/''"

text \<open>\<open>s.split('/')\<close>: always at least one part.\<close>

fun split_sep :: "string \<Rightarrow> string list" where
  "split_sep [] = [[]]"
| "split_sep (c # cs) =
     (if c = sep then [] # split_sep cs
      else (case split_sep cs of [] \<Rightarrow> [[c]] | x # xs \<Rightarrow> (c # x) # xs))"

text \<open>\<open>'/'.join(parts)\<close>.\<close>

fun join_sep :: "string list \<Rightarrow> string" where
  "join_sep [] = []"
| "join_sep [x] = x"
| "join_sep (x # y # ys) = x @ sep # join_sep (y # ys)"

definition isabs :: "path \<Rightarrow> bool" where
  "isabs p = prefix [sep] p"

text \<open>\<open>posixpath.join(a, b)\<close> with one further component.\<close>

definition path_join :: "path \<Rightarrow> path \<Rightarrow> path" where
  "path_join a b =
     (if prefix [sep] b \<or> a = [] then b
      else if suffix [sep] a then a @ b
      else a @ sep # b)"

text \<open>
  One round of the loop of \<open>normpath\<close> over the components: \<open>init\<close> says that the path
  starts with a slash, \<open>new\<close> is \<open>new_comps\<close>.
\<close>

definition normpath_step :: "bool \<Rightarrow> string list \<Rightarrow> string \<Rightarrow> string list" where
  "normpath_step init new c =
     (if c = [] \<or> c = ''.'' then new
      else if c \<noteq> ''..'' \<or> (\<not> init \<and> new = []) \<or> (new \<noteq> [] \<and> last new = ''..'')
           then new @ [c]
      else if new \<noteq> [] then butlast new
      else new)"

definition initial_slashes :: "path \<Rightarrow> nat" where
  "initial_slashes p =
     (if prefix [sep] p
      then (if prefix [sep, sep] p \<and> \<not> prefix [sep, sep, sep] p then 2 else 1)
      else 0)"

definition normpath :: "path \<Rightarrow> path" where
  "normpath p =
     (if p = [] then ''.''
      else let n = initial_slashes p;
               comps = foldl (normpath_step (n \<noteq> 0)) [] (split_sep p);
               q = replicate n sep @ join_sep comps
           in if q = [] then ''.'' else q)"

text \<open>\<open>abspath\<close>, with the current working directory of the process passed in.\<close>

definition abspath :: "path \<Rightarrow> path \<Rightarrow> path" where
  "abspath cwd p = normpath (if isabs p then p else path_join cwd p)"

text \<open>
  \<open>dirname\<close>: the text up to and including the last slash, with its trailing slashes
  stripped unless it consists of slashes only.
\<close>

definition dirname :: "path \<Rightarrow> path" where
  "dirname p =
     (let head = rev (dropWhile (\<lambda>c. c \<noteq> sep) (rev p))
      in if head \<noteq> [] \<and> head \<noteq> replicate (length head) sep
         then rev (dropWhile (\<lambda>c. c = sep) (rev head))
         else head)"

text \<open>The components that \<open>commonpath\<close> compares: empty ones and \<open>.\<close> are dropped.\<close>

definition path_comps :: "path \<Rightarrow> string list" where
  "path_comps p = filter (\<lambda>c. c \<noteq> [] \<and> c \<noteq> ''.'') (split_sep p)"

text \<open>
  The loop of \<open>commonpath\<close> over \<open>s1 = min(split_paths)\<close>, comparing with
  \<open>s2 = max(split_paths)\<close>: the longest common prefix. Since \<open>s1 \<le> s2\<close> in the
  lexicographic order, \<open>s2[i]\<close> is never read out of range; the second equation is only
  there to make the function total.
\<close>

fun common_prefix :: "string list \<Rightarrow> string list \<Rightarrow> string list" where
  "common_prefix [] s2 = []"
| "common_prefix (c # s1) [] = []"
| "common_prefix (c # s1) (d # s2) = (if c \<noteq> d then [] else c # common_prefix s1 s2)"

text \<open>
  \<open>commonpath([a, b])\<close>; \<open>None\<close> is the \<open>ValueError\<close> raised when one path is absolute and the
  other is not.
\<close>

definition commonpath :: "path \<Rightarrow> path \<Rightarrow> path option" where
  "commonpath a b =
     (if isabs a \<noteq> isabs b then None
      else let sa = path_comps a; sb = path_comps b;
               common = common_prefix (min sa sb) (max sa sb)
           in Some ((if isabs a then [sep] else []) @ join_sep common))"

text \<open>Component lists as \<open>normpath\<close> produces them for an absolute path.\<close>

definition clean :: "string list \<Rightarrow> bool" where
  "clean cs = (\<forall>c \<in> set cs. c \<noteq> [] \<and> c \<noteq> ''.'' \<and> c \<noteq> ''..'' \<and> sep \<notin> set c)"

section \<open>The file system\<close>

text \<open>
  A file system is a finite table from resolved paths (lists of component names below
  the root directory \<open>/\<close>) to nodes, together with the working directory of the process.
  Symbolic links, permissions and encodings are not modelled, so the operating system
  resolves a path string in the way \<open>abspath\<close> normalises it.
\<close>

datatype node = File string | Dir

record world =
  fs :: "(string list \<times> node) list"
  cwd :: path

datatype os_error =
    IsADirectoryError path
  | NotADirectoryError path
  | FileExistsError path
  | FileNotFoundError path

definition resolve :: "world \<Rightarrow> path \<Rightarrow> string list" where
  "resolve w p = path_comps (abspath (cwd w) p)"

definition node_at :: "(string list \<times> node) list \<Rightarrow> string list \<Rightarrow> node option" where
  "node_at t k = (if k = [] then Some Dir else map_of t k)"

text \<open>\<open>os.path.exists\<close>.\<close>

definition path_exists :: "world \<Rightarrow> path \<Rightarrow> bool" where
  "path_exists w p = (node_at (fs w) (resolve w p) \<noteq> None)"

text \<open>
  \<open>os.makedirs(name, exist_ok=True)\<close>: every missing directory on the way is created. A file
  in the way makes \<open>mkdir\<close> raise, before anything has been created: \<open>FileExistsError\<close> when
  the file is \<open>name\<close> itself, \<open>NotADirectoryError\<close> for the first name below the file
  otherwise. The message shows the resolved path.
\<close>

fun mkdirs_from :: "(string list \<times> node) list \<Rightarrow> string list \<Rightarrow> string list
    \<Rightarrow> os_error + (string list \<times> node) list" where
  "mkdirs_from t done [] = Inr t"
| "mkdirs_from t done (c # cs) =
     (let k = done @ [c]
      in case node_at t k of
           None \<Rightarrow> mkdirs_from (t @ [(k, Dir)]) k cs
         | Some Dir \<Rightarrow> mkdirs_from t k cs
         | Some (File x) \<Rightarrow>
             (case cs of
                [] \<Rightarrow> Inl (FileExistsError (sep # join_sep k))
              | c' # cs' \<Rightarrow> Inl (NotADirectoryError (sep # join_sep (k @ [c'])))))"

definition makedirs :: "world \<Rightarrow> path \<Rightarrow> os_error + world" where
  "makedirs w name =
     (case mkdirs_from (fs w) [] (resolve w name) of
        Inl e \<Rightarrow> Inl e
      | Inr t \<Rightarrow> Inr (w\<lparr>fs := t\<rparr>))"

text \<open>\<open>open(p, "w")\<close> followed by \<open>f.write(content)\<close>, in a directory that exists.\<close>

definition open_write :: "world \<Rightarrow> path \<Rightarrow> string \<Rightarrow> os_error + world" where
  "open_write w p content =
     (let k = resolve w p
      in case node_at (fs w) k of
           Some Dir \<Rightarrow> Inl (IsADirectoryError p)
         | _ \<Rightarrow> Inr (w\<lparr>fs := AList.update k (File content) (fs w)\<rparr>))"

text \<open>\<open>open(p, "r")\<close> followed by \<open>f.read()\<close>, on a path that exists.\<close>

definition open_read :: "world \<Rightarrow> path \<Rightarrow> os_error + string" where
  "open_read w p =
     (case node_at (fs w) (resolve w p) of
        Some (File c) \<Rightarrow> Inr c
      | Some Dir \<Rightarrow> Inl (IsADirectoryError p)
      | None \<Rightarrow> Inl (FileNotFoundError p))"

text \<open>\<open>os.listdir\<close> on a path that exists: the names of the entries directly below it.\<close>

definition listdir :: "world \<Rightarrow> path \<Rightarrow> os_error + string list" where
  "listdir w p =
     (let k = resolve w p
      in case node_at (fs w) k of
           Some (File c) \<Rightarrow> Inl (NotADirectoryError p)
         | None \<Rightarrow> Inl (FileNotFoundError p)
         | Some Dir \<Rightarrow> Inr (map (\<lambda>e. last (fst e))
                     (filter (\<lambda>e. fst e \<noteq> [] \<and> butlast (fst e) = k) (fs w))))"

text \<open>\<open>str(e)\<close> for these errors.\<close>

definition quoted :: "string \<Rightarrow> string" where
  "quoted p = [CHR 0x27] @ p @ [CHR 0x27]"

fun str_os_error :: "os_error \<Rightarrow> string" where
  "str_os_error (IsADirectoryError p) = ''[Errno 21] Is a directory: '' @ quoted p"
| "str_os_error (NotADirectoryError p) = ''[Errno 20] Not a directory: '' @ quoted p"
| "str_os_error (FileExistsError p) = ''[Errno 17] File exists: '' @ quoted p"
| "str_os_error (FileNotFoundError p) = ''[Errno 2] No such file or directory: '' @ quoted p"

text \<open>\<open>"\n".join(names)\<close>.\<close>

fun join_lines :: "string list \<Rightarrow> string" where
  "join_lines [] = []"
| "join_lines [x] = x"
| "join_lines (x # y # ys) = x @ CHR 0x0A # join_lines (y # ys)"

section \<open>Sandboxed file access (core/file_system.py, class FileSystem)\<close>

definition PROJECT_SUBDIRS :: "string list" where
  "PROJECT_SUBDIRS = [''src'', ''tests'', ''frontend'', ''logs'']"

definition security_violation :: "string \<Rightarrow> string" where
  "security_violation action =
     ''Error: Security violation. Cannot '' @ action @ '' outside project root.''"

text \<open>
  \<open>_assert_within_root\<close>: \<open>Some\<close> error text when \<open>abs_path\<close> is outside \<open>project_root\<close>, else
  \<open>None\<close>. The \<open>ValueError\<close> of \<open>commonpath\<close> is caught and gives the same text. The log
  lines are not modelled.
\<close>

definition assert_within_root :: "path \<Rightarrow> string \<Rightarrow> path \<Rightarrow> string option" where
  "assert_within_root abs_path action project_root =
     (case commonpath abs_path project_root of
        Some c \<Rightarrow> (if c \<noteq> project_root then Some (security_violation action) else None)
      | None \<Rightarrow> Some (security_violation action))"

text \<open>\<open>root = project_root or os.getcwd()\<close>: \<open>None\<close> and the empty string are falsy.\<close>

definition effective_root :: "path option \<Rightarrow> world \<Rightarrow> path" where
  "effective_root project_root w =
     (case project_root of
        None \<Rightarrow> cwd w
      | Some r \<Rightarrow> (if r \<noteq> [] then r else cwd w))"

definition write_file :: "path \<Rightarrow> string \<Rightarrow> path option \<Rightarrow> world \<Rightarrow> string \<times> world" where
  "write_file p content project_root w =
     (let root = effective_root project_root w;
          abs_path = abspath (cwd w) (path_join root p)
      in case assert_within_root abs_path ''write'' root of
           Some err \<Rightarrow> (err, w)
         | None \<Rightarrow>
            (case makedirs w (dirname abs_path) of
               Inl e \<Rightarrow> (''Error writing file: '' @ str_os_error e, w)
             | Inr w1 \<Rightarrow>
                (case open_write w1 abs_path content of
                   Inl e \<Rightarrow> (''Error writing file: '' @ str_os_error e, w1)
                 | Inr w2 \<Rightarrow> (''Successfully wrote to '' @ p, w2))))"

definition read_file :: "path \<Rightarrow> path option \<Rightarrow> world \<Rightarrow> string" where
  "read_file p project_root w =
     (let root = effective_root project_root w;
          abs_path = abspath (cwd w) (path_join root p)
      in case assert_within_root abs_path ''read'' root of
           Some err \<Rightarrow> err
         | None \<Rightarrow>
            (if \<not> path_exists w abs_path then ''Error: File '' @ p @ '' does not exist.''
             else case open_read w abs_path of
                    Inl e \<Rightarrow> ''Error reading file: '' @ str_os_error e
                  | Inr content \<Rightarrow> content))"

definition list_dir :: "path \<Rightarrow> path option \<Rightarrow> world \<Rightarrow> string" where
  "list_dir p project_root w =
     (let root = effective_root project_root w;
          abs_path = abspath (cwd w) (path_join root p)
      in if \<not> path_exists w abs_path then ''Error: Directory '' @ p @ '' does not exist.''
         else case listdir w abs_path of
                Inl e \<Rightarrow> ''Error listing directory: '' @ str_os_error e
              | Inr names \<Rightarrow> join_lines names)"

text \<open>
  A resolved path lies within a root when the components of the root, made absolute, are
  a prefix of the components of the path; the root itself lies within the root.
\<close>

definition within_root :: "path \<Rightarrow> path \<Rightarrow> path \<Rightarrow> bool" where
  "within_root cwd_path project_root abs_path =
     prefix (path_comps (abspath cwd_path project_root)) (path_comps abs_path)"


text \<open>
  The tool wrappers at the end of \<open>core/file_system.py\<close> (kept for the \<open>agents\<close> package):
  they call the three operations without a project root.
\<close>

definition FileWriteTool_run :: "path \<Rightarrow> string \<Rightarrow> world \<Rightarrow> string \<times> world" where
  "FileWriteTool_run p content w = write_file p content None w"


definition DirectoryListTool_run :: "path \<Rightarrow> world \<Rightarrow> string" where
  "DirectoryListTool_run p w = list_dir p None w"

section \<open>Credential pool (core/groq_runner.py, build_client_pool)\<close>

text \<open>The process environment \<open>os.environ\<close>, and \<open>os.getenv(name, default)\<close>.\<close>

type_synonym environ = "string \<rightharpoonup> string"

definition getenv :: "environ \<Rightarrow> string \<Rightarrow> string \<Rightarrow> string" where
  "getenv env name dflt = (case env name of None \<Rightarrow> dflt | Some v \<Rightarrow> v)"

text \<open>
  \<open>str.strip()\<close> removes leading and trailing whitespace. Credentials are ASCII text; the
  ASCII characters for which \<open>str.isspace\<close> holds are the codes 9 to 13, 28 to 31 and 32.
\<close>

definition is_space :: "char \<Rightarrow> bool" where
  "is_space c = (let n = (of_char c :: nat) in (9 \<le> n \<and> n \<le> 13) \<or> (28 \<le> n \<and> n \<le> 32))"

definition strip :: "string \<Rightarrow> string" where
  "strip s = rev (dropWhile is_space (rev (dropWhile is_space s)))"

text \<open>\<open>str(n)\<close> for a natural number.\<close>

fun str_nat :: "nat \<Rightarrow> string" where
  "str_nat n =
     (if n < 10 then [char_of (48 + n)]
      else str_nat (n div 10) @ [char_of (48 + n mod 10)])"

text \<open>The exceptions that the modelled functions raise or let through.\<close>

datatype py_error =
    ValueError string
  | RuntimeError string
  | IndexError
  | KeyError string
  | OSError os_error
  | ApiError string
  | AttributeError string
  | RecursionError string

record client =
  api_key :: string
  base_url :: string

definition make_client :: "environ \<Rightarrow> string \<Rightarrow> client" where
  "make_client env key =
     \<lparr>api_key = key, base_url = getenv env ''OPENAI_API_BASE'' ''https://api.groq.com/openai/v1''\<rparr>"

text \<open>The test applied to the primary key and to each numbered key after stripping.\<close>

definition keep_key :: "string list \<Rightarrow> string \<Rightarrow> string list" where
  "keep_key keys key = (if key \<noteq> [] \<and> \<not> prefix ''your_'' key then keys @ [key] else keys)"

text \<open>
  \<open>build_client_pool\<close>: the primary key, then \<open>GROQ_API_KEY_2\<close> to \<open>GROQ_API_KEY_5\<close>
  (\<open>range(2, 6)\<close>). The log lines with the masked keys are not modelled.
\<close>

definition build_client_pool :: "environ \<Rightarrow> py_error + client list" where
  "build_client_pool env =
     (let primary = strip (getenv env ''GROQ_API_KEY'' '''');
          keys0 = keep_key [] primary;
          keys = foldl (\<lambda>ks i. keep_key ks (strip (getenv env (''GROQ_API_KEY_'' @ str_nat i) '''')))
                   keys0 [2..<6]
      in if keys = [] then Inl (ValueError ''No valid GROQ API keys found. Set GROQ_API_KEY in .env'')
         else Inr (map (make_client env) keys))"

text \<open>
  The credential pool as the specification words it: the slots in order, and a credential
  is valid when it is non-empty after trimming and does not start with \<open>your_\<close>.
\<close>

definition credential_slots :: "string list" where
  "credential_slots =
     [''GROQ_API_KEY'', ''GROQ_API_KEY_2'', ''GROQ_API_KEY_3'', ''GROQ_API_KEY_4'', ''GROQ_API_KEY_5'']"

definition valid_credential :: "string \<Rightarrow> bool" where
  "valid_credential v = (strip v \<noteq> [] \<and> \<not> prefix ''your_'' (strip v))"

definition valid_credentials :: "environ \<Rightarrow> string list" where
  "valid_credentials env =
     map strip (filter valid_credential (map (\<lambda>name. getenv env name '''') credential_slots))"

section \<open>Execution engine (core/groq_runner.py, run_agent)\<close>

record tool_call =
  call_id :: string
  fn_name :: string
  fn_arguments :: string

text \<open>
  The message of a response. \<open>msg_content\<close> may be \<open>None\<close>; an absent and an empty list
  of tool calls are both falsy and both are the empty list here.
\<close>

record assistant_message =
  msg_content :: "string option"
  msg_tool_calls :: "tool_call list"

datatype message =
    SystemMsg string
  | UserMsg string
  | AssistantMsg assistant_message
  | ToolMsg string string

datatype api_result = Response assistant_message | ApiException string

text \<open>
  What \<open>json.loads\<close> can do with the argument text of a tool call: return an object
  (a \<open>dict\<close>), whose values are strings or values of another type; return a value that
  is not an object (a list, a string, a number, a boolean, \<open>None\<close>); raise
  \<open>JSONDecodeError\<close>; or raise another exception (\<open>RecursionError\<close> on deeply nested text,
  \<open>ValueError\<close> on an integer with too many digits). A value that is not a string is
  given by the name of its Python type.
\<close>

datatype json_value = JString string | JOther string

datatype loads_result =
    Parsed_object "string \<rightharpoonup> json_value"
  | Parsed_other string
  | Decode_error
  | Other_error py_error

text \<open>
  What the engine does not control: the model endpoint, the JSON parser and the random
  number generator. \<open>chat n c model_id ms\<close> is the outcome of the request number \<open>n\<close> of a
  run, sent with client \<open>c\<close> and the conversation \<open>ms\<close> (the tool schema, the tool choice
  and the temperature are constants); an exception is given by its text \<open>str(e)\<close>.
  \<open>json_loads\<close> is \<open>json.loads\<close> on the argument text of a tool call.
  \<open>uniform_0_5 k\<close> is the value of the draw number \<open>k\<close> of \<open>random.uniform(0, 5)\<close>,
  a real number here.
\<close>

record endpoint =
  chat :: "nat \<Rightarrow> client \<Rightarrow> string \<Rightarrow> message list \<Rightarrow> api_result"
  json_loads :: "string \<Rightarrow> loads_result"
  uniform_0_5 :: "nat \<Rightarrow> real"

text \<open>
  \<open>FileSystem.write_file\<close> and \<open>FileSystem.read_file\<close> on arguments as the tool dispatcher
  passes them, which need not be strings. A path that is not a string makes
  \<open>os.path.join\<close> raise \<open>TypeError\<close>; a content that is not a string makes \<open>f.write\<close> raise
  \<open>TypeError\<close>, after \<open>open\<close> has created or emptied the file. Both are caught by the
  \<open>except Exception\<close> of the operation and returned as an error text.
\<close>

definition join_type_error :: "string \<Rightarrow> string" where
  "join_type_error ty =
     ''join() argument must be str, bytes, or os.PathLike object, not '' @ quoted ty"

definition write_type_error :: "string \<Rightarrow> string" where
  "write_type_error ty = ''write() argument must be str, not '' @ ty"

definition write_file_value ::
    "json_value \<Rightarrow> json_value \<Rightarrow> path option \<Rightarrow> world \<Rightarrow> string \<times> world" where
  "write_file_value pv cv project_root w =
     (case pv of
        JOther ty \<Rightarrow> (''Error writing file: '' @ join_type_error ty, w)
      | JString p \<Rightarrow>
         (case cv of
            JString c \<Rightarrow> write_file p c project_root w
          | JOther ty \<Rightarrow>
             (let root = effective_root project_root w;
                  abs_path = abspath (cwd w) (path_join root p)
              in case assert_within_root abs_path ''write'' root of
                   Some err \<Rightarrow> (err, w)
                 | None \<Rightarrow>
                    (case makedirs w (dirname abs_path) of
                       Inl e \<Rightarrow> (''Error writing file: '' @ str_os_error e, w)
                     | Inr w1 \<Rightarrow>
                        (case open_write w1 abs_path [] of
                           Inl e \<Rightarrow> (''Error writing file: '' @ str_os_error e, w1)
                         | Inr w2 \<Rightarrow> (''Error writing file: '' @ write_type_error ty, w2))))))"

definition read_file_value :: "json_value \<Rightarrow> path option \<Rightarrow> world \<Rightarrow> string" where
  "read_file_value pv project_root w =
     (case pv of
        JOther ty \<Rightarrow> ''Error reading file: '' @ join_type_error ty
      | JString p \<Rightarrow> read_file p project_root w)"

text \<open>\<open>_execute_tool\<close>: a missing key of \<open>args\<close> raises \<open>KeyError\<close>.\<close>

definition execute_tool ::
    "string \<Rightarrow> (string \<rightharpoonup> json_value) \<Rightarrow> path \<Rightarrow> world \<Rightarrow> py_error + (string \<times> world)" where
  "execute_tool name args project_root w =
     (if name = ''write_file'' then
        (case args ''path'' of
           None \<Rightarrow> Inl (KeyError ''path'')
         | Some p \<Rightarrow>
            (case args ''content'' of
               None \<Rightarrow> Inl (KeyError ''content'')
             | Some c \<Rightarrow> Inr (write_file_value p c (Some project_root) w)))
      else if name = ''read_file'' then
        (case args ''path'' of
           None \<Rightarrow> Inl (KeyError ''path'')
         | Some p \<Rightarrow> Inr (read_file_value p (Some project_root) w, w))
      else Inr (''Unknown tool: '' @ name, w))"

definition max_tool_calls :: nat where
  "max_tool_calls = 25"

definition max_rate_retries :: nat where
  "max_rate_retries = 30"

definition max_tool_fail_retries :: nat where
  "max_tool_fail_retries = 2"

definition base_wait :: real where
  "base_wait = 20"

text \<open>
  The local variables of \<open>run_agent\<close> and what it acts on. \<open>requests\<close> and \<open>sleeps\<close> are not
  variables of the source: they count the requests sent and list the arguments of
  \<open>time.sleep\<close>, so that the endpoint can answer differently over time and the waits can
  be observed.
\<close>

record loop_state =
  msgs :: "message list"
  tool_calls_made :: nat
  rate_limit_hits :: nat
  tool_fail_retries :: nat
  client_idx :: nat
  cycle_count :: nat
  requests :: nat
  sleeps :: "real list"
  lworld :: world

text \<open>\<open>model.replace("groq/", "")\<close>.\<close>

function remove_groq :: "string \<Rightarrow> string" where
  "remove_groq [] = []"
| "remove_groq (c # cs) =
     (if prefix ''groq/'' (c # cs) then remove_groq (drop 4 cs) else c # remove_groq cs)"
  by pat_completeness auto
termination
  by (relation "measure length") auto

text \<open>
  \<open>wait = base_wait * (2 ** (cycle_count - 1)) + random.uniform(0, 5)\<close>; \<open>cycle_count\<close> has
  just been incremented there, so it is at least 1.
\<close>

definition backoff_wait :: "nat \<Rightarrow> real \<Rightarrow> real" where
  "backoff_wait cyc jitter = base_wait * 2 ^ (cyc - 1) + jitter"

definition corrective_message :: string where
  "corrective_message =
     ''Your previous tool call was malformed. '' @
     ''You MUST call tools using the provided JSON function schema '' @
     [CHR 0xE2, CHR 0x80, CHR 0x94] @ '' '' @
     ''do NOT use XML-style <function=...> syntax. Please retry.''"

definition parse_error_message :: string where
  "parse_error_message = ''Error: Could not parse tool arguments. Please retry with valid JSON.''"

text \<open>
  The \<open>for tool_call in msg.tool_calls\<close> loop: the conversation and the file system are
  threaded through. Only \<open>JSONDecodeError\<close> is caught; another exception of \<open>json.loads\<close>,
  the \<open>AttributeError\<close> of \<open>fn_args.keys()\<close> on a value that is not an object, and an
  exception of \<open>_execute_tool\<close> end the loop and leave \<open>run_agent\<close>.
\<close>

definition keys_attribute_error :: "string \<Rightarrow> py_error" where
  "keys_attribute_error ty =
     AttributeError (quoted ty @ '' object has no attribute '' @ quoted ''keys'')"

fun process_tool_calls ::
    "endpoint \<Rightarrow> path \<Rightarrow> tool_call list \<Rightarrow> message list \<Rightarrow> world
       \<Rightarrow> py_error option \<times> message list \<times> world" where
  "process_tool_calls ep project_root [] ms w = (None, ms, w)"
| "process_tool_calls ep project_root (tc # tcs) ms w =
     (case json_loads ep (fn_arguments tc) of
        Decode_error \<Rightarrow>
          process_tool_calls ep project_root tcs
            (ms @ [ToolMsg (call_id tc) parse_error_message]) w
      | Other_error e \<Rightarrow> (Some e, ms, w)
      | Parsed_other ty \<Rightarrow> (Some (keys_attribute_error ty), ms, w)
      | Parsed_object args \<Rightarrow>
         (case execute_tool (fn_name tc) args project_root w of
            Inl e \<Rightarrow> (Some e, ms, w)
          | Inr (tool_result, w') \<Rightarrow>
              process_tool_calls ep project_root tcs
                (ms @ [ToolMsg (call_id tc) tool_result]) w'))"

datatype step_result =
    Continue loop_state
  | Return string loop_state
  | Raise py_error loop_state

text \<open>One round of the \<open>while\<close> loop of \<open>run_agent\<close>, entered with the loop condition true.\<close>

definition agent_step :: "endpoint \<Rightarrow> string \<Rightarrow> client list \<Rightarrow> path \<Rightarrow> loop_state \<Rightarrow> step_result" where
  "agent_step ep model_id clients project_root s =
     (if length clients \<le> client_idx s then Raise IndexError s
      else case chat ep (requests s) (clients ! client_idx s) model_id (msgs s) of
        Response msg \<Rightarrow>
          (let s1 = s\<lparr>requests := requests s + 1, cycle_count := 0,
                      tool_calls_made := tool_calls_made s + 1\<rparr>
           in if msg_tool_calls msg = []
              then Return (case msg_content msg of None \<Rightarrow> [] | Some c \<Rightarrow> c) s1
              else (case process_tool_calls ep project_root (msg_tool_calls msg)
                           (msgs s1 @ [AssistantMsg msg]) (lworld s1) of
                      (None, ms, w) \<Rightarrow> Continue (s1\<lparr>msgs := ms, lworld := w\<rparr>)
                    | (Some e, ms, w) \<Rightarrow> Raise e (s1\<lparr>msgs := ms, lworld := w\<rparr>)))
      | ApiException error_str \<Rightarrow>
          (let s0 = s\<lparr>requests := requests s + 1\<rparr>
           in if sublist ''rate_limit_exceeded'' error_str then
                (let s1 = s0\<lparr>rate_limit_hits := rate_limit_hits s0 + 1\<rparr>;
                     next_idx = (client_idx s1 + 1) mod length clients
                 in if next_idx = 0 then
                      (let s2 = s1\<lparr>cycle_count := cycle_count s1 + 1\<rparr>;
                           wait = backoff_wait (cycle_count s2) (uniform_0_5 ep (length (sleeps s2)))
                       in Continue (s2\<lparr>sleeps := sleeps s2 @ [wait], client_idx := next_idx\<rparr>))
                    else Continue (s1\<lparr>client_idx := next_idx\<rparr>))
              else if sublist ''tool_use_failed'' error_str
                      \<and> tool_fail_retries s0 < max_tool_fail_retries then
                Continue (s0\<lparr>tool_fail_retries := tool_fail_retries s0 + 1,
                             msgs := msgs s0 @ [UserMsg corrective_message]\<rparr>)
              else Raise (ApiError error_str) s0))"

text \<open>What is left of the three budgets; every round that continues uses one unit.\<close>

definition budget_left :: "loop_state \<Rightarrow> nat" where
  "budget_left s =
     (max_tool_calls - tool_calls_made s) + (max_rate_retries - rate_limit_hits s)
       + (max_tool_fail_retries - tool_fail_retries s)"

text \<open>The \<open>while\<close> loop and the two returns after it.\<close>

function agent_loop ::
    "endpoint \<Rightarrow> string \<Rightarrow> client list \<Rightarrow> path \<Rightarrow> loop_state \<Rightarrow> (py_error + string) \<times> loop_state" where
  "agent_loop ep model_id clients project_root s =
     (if tool_calls_made s < max_tool_calls \<and> rate_limit_hits s < max_rate_retries then
        (case agent_step ep model_id clients project_root s of
           Continue s' \<Rightarrow> agent_loop ep model_id clients project_root s'
         | Return r s' \<Rightarrow> (Inr r, s')
         | Raise e s' \<Rightarrow> (Inl e, s'))
      else if max_rate_retries \<le> rate_limit_hits s then
        (Inr (''Agent aborted: rate limit hit '' @ str_nat (rate_limit_hits s) @ '' times.''), s)
      else (Inr ''Agent reached max tool calls.'', s))"
  by pat_completeness auto
termination
proof (relation "measure (\<lambda>(ep, model_id, clients, project_root, s). budget_left s)")
  show "wf (measure (\<lambda>(ep, model_id, clients, project_root, s). budget_left s))"
    by simp
next
  fix ep :: endpoint and model_id :: string and clients :: "client list"
    and project_root :: path and s s' :: loop_state
  assume guard: "tool_calls_made s < max_tool_calls \<and> rate_limit_hits s < max_rate_retries"
    and step: "agent_step ep model_id clients project_root s = Continue s'"
  from step guard have "budget_left s' < budget_left s"
    by (auto simp: agent_step_def budget_left_def Let_def max_tool_calls_def max_rate_retries_def
          max_tool_fail_retries_def
        split: if_splits api_result.splits prod.splits option.splits)
  then show "((ep, model_id, clients, project_root, s'), (ep, model_id, clients, project_root, s))
      \<in> measure (\<lambda>(ep, model_id, clients, project_root, s). budget_left s)"
    by simp
qed

definition initial_loop_state :: "string \<Rightarrow> string \<Rightarrow> world \<Rightarrow> loop_state" where
  "initial_loop_state system_prompt user_message w =
     \<lparr>msgs = [SystemMsg system_prompt, UserMsg user_message],
      tool_calls_made = 0, rate_limit_hits = 0, tool_fail_retries = 0,
      client_idx = 0, cycle_count = 0, requests = 0, sleeps = [], lworld = w\<rparr>"

text \<open>
  \<open>run_agent\<close>: the result is the returned text or the exception that left the function,
  with the final state. The progress sink updates and the log lines do not influence
  the control flow and are not modelled.
\<close>

definition run_agent ::
    "endpoint \<Rightarrow> string \<Rightarrow> string \<Rightarrow> string \<Rightarrow> client list \<Rightarrow> path \<Rightarrow> world
       \<Rightarrow> (py_error + string) \<times> loop_state" where
  "run_agent ep system_prompt user_message model clients project_root w =
     agent_loop ep (remove_groq model) clients project_root
       (initial_loop_state system_prompt user_message w)"

text \<open>
  The loop goes from the state \<open>s\<close> at its head to the state \<open>s'\<close> at its head one round
  later: the loop condition holds in \<open>s\<close> and the round neither returns nor raises.
\<close>

definition next_round ::
    "endpoint \<Rightarrow> string \<Rightarrow> client list \<Rightarrow> path \<Rightarrow> loop_state \<Rightarrow> loop_state \<Rightarrow> bool" where
  "next_round ep model_id cls project_root s s' =
     (tool_calls_made s < max_tool_calls \<and> rate_limit_hits s < max_rate_retries
      \<and> agent_step ep model_id cls project_root s = Continue s')"

section \<open>Phase pipeline (core/orchestrator.py, class Orchestrator)\<close>

text \<open>
  The six prompt texts are module constants of the source. Their wording decides
  nothing below, so the pipeline takes them as a record.
\<close>

record prompts =
  PM_PRD_PROMPT :: string
  PM_ARCH_PROMPT :: string
  TL_PROMPT :: string
  DEV_IMPL_PROMPT :: string
  VALIDATOR_PROMPT :: string
  TESTER_PROMPT :: string

record orchestrator =
  clients :: "client list"
  model :: string

text \<open>
  \<open>Orchestrator.__init__\<close>: the exception of \<open>build_client_pool\<close> leaves the constructor.
  The visualizer thread is not modelled.
\<close>

definition Orchestrator_init :: "environ \<Rightarrow> py_error + orchestrator" where
  "Orchestrator_init env =
     (case build_client_pool env of
        Inl e \<Rightarrow> Inl e
      | Inr cs \<Rightarrow>
          Inr \<lparr>clients = cs, model = getenv env ''OPENAI_MODEL_NAME'' ''groq/llama-3.3-70b-versatile''\<rparr>)"

text \<open>
  The state of a pipeline run: the file system, and a log that is not a variable of the
  source: one entry for every invocation of \<open>run_agent\<close>, with the agent name, what the
  invocation returned or raised, and the file system it left.
\<close>

record pipeline_state =
  pworld :: world
  calls :: "(string \<times> (py_error + string) \<times> world) list"

text \<open>The local helper \<open>call\<close> of \<open>Orchestrator.run\<close>.\<close>

definition call ::
    "endpoint \<Rightarrow> orchestrator \<Rightarrow> path \<Rightarrow> string \<Rightarrow> string \<Rightarrow> string \<Rightarrow> pipeline_state
       \<Rightarrow> (py_error + string) \<times> pipeline_state" where
  "call ep orch project_dir agent_name prompt message st =
     (case run_agent ep prompt message (model orch) (clients orch) project_dir (pworld st) of
        (r, ls) \<Rightarrow>
          (r, \<lparr>pworld = lworld ls, calls = calls st @ [(agent_name, r, lworld ls)]\<rparr>))"

text \<open>
  The loop \<open>for subdir in PROJECT_SUBDIRS: os.makedirs(os.path.join(project_dir, subdir),
  exist_ok=True)\<close>; an exception ends it.
\<close>

fun make_subdirs :: "world \<Rightarrow> path \<Rightarrow> string list \<Rightarrow> os_error option \<times> world" where
  "make_subdirs w project_dir [] = (None, w)"
| "make_subdirs w project_dir (subdir # rest) =
     (case makedirs w (path_join project_dir subdir) of
        Inl e \<Rightarrow> (Some e, w)
      | Inr w' \<Rightarrow> make_subdirs w' project_dir rest)"

text \<open>
  \<open>Orchestrator.run\<close>: six invocations of \<open>call\<close> in a row, with an existence check after
  each of the first three. An exception of \<open>run_agent\<close> leaves \<open>run\<close>. The progress sink
  updates and the log lines are not modelled.
\<close>

definition Orchestrator_run ::
    "endpoint \<Rightarrow> prompts \<Rightarrow> orchestrator \<Rightarrow> string \<Rightarrow> path \<Rightarrow> world
       \<Rightarrow> (py_error + string) \<times> pipeline_state" where
  "Orchestrator_run ep ps orch user_requirement project_dir w =
     (case make_subdirs w project_dir PROJECT_SUBDIRS of
        (Some e, w0) \<Rightarrow> (Inl (OSError e), \<lparr>pworld = w0, calls = []\<rparr>)
      | (None, w0) \<Rightarrow>
     (case call ep orch project_dir ''Project Manager'' (PM_PRD_PROMPT ps)
             (''Write a PRD for this project: '' @ user_requirement) \<lparr>pworld = w0, calls = []\<rparr> of
        (Inl e, st1) \<Rightarrow> (Inl e, st1)
      | (Inr r1, st1) \<Rightarrow>
     if \<not> path_exists (pworld st1) (path_join project_dir ''PRD.md'')
     then (Inl (RuntimeError ''PRD.md not created by Project Manager agent.''), st1)
     else
     (case call ep orch project_dir ''Architect'' (PM_ARCH_PROMPT ps)
             ''Read PRD.md, then write ARCHITECTURE.md with the folder layout and file list.'' st1 of
        (Inl e, st2) \<Rightarrow> (Inl e, st2)
      | (Inr r2, st2) \<Rightarrow>
     if \<not> path_exists (pworld st2) (path_join project_dir ''ARCHITECTURE.md'')
     then (Inl (RuntimeError ''ARCHITECTURE.md not created by Architect agent.''), st2)
     else
     (case call ep orch project_dir ''Team Lead'' (TL_PROMPT ps)
             ''Read PRD.md and ARCHITECTURE.md, then write TASK_LIST.json.'' st2 of
        (Inl e, st3) \<Rightarrow> (Inl e, st3)
      | (Inr r3, st3) \<Rightarrow>
     if \<not> path_exists (pworld st3) (path_join project_dir ''TASK_LIST.json'')
     then (Inl (RuntimeError ''TASK_LIST.json not created by Team Lead agent.''), st3)
     else
     (case call ep orch project_dir ''Developer'' (DEV_IMPL_PROMPT ps)
             ''Read ARCHITECTURE.md and TASK_LIST.json. Implement every source file listed.'' st3 of
        (Inl e, st4) \<Rightarrow> (Inl e, st4)
      | (Inr r4, st4) \<Rightarrow>
     (case call ep orch project_dir ''Backend Logic Validator'' (VALIDATOR_PROMPT ps)
             ''Read TASK_LIST.json, read each source file, write VALIDATION_REPORT.md.'' st4 of
        (Inl e, st5) \<Rightarrow> (Inl e, st5)
      | (Inr r5, st5) \<Rightarrow>
     (case call ep orch project_dir ''QA Tester'' (TESTER_PROMPT ps)
             ''Read TASK_LIST.json, read each source file once, write tests/test_main.py.'' st5 of
        (Inl e, st6) \<Rightarrow> (Inl e, st6)
      | (Inr r6, st6) \<Rightarrow>
          (Inr (''NeoForge AI pipeline completed. Output in: '' @ project_dir), st6))))))))"

text \<open>
  The two statements of \<open>main\<close> that build the orchestrator and run it:
  \<open>orchestrator = Orchestrator()\<close>, then \<open>orchestrator.run(user_requirement, project_dir)\<close>.
\<close>

definition construct_and_run ::
    "environ \<Rightarrow> endpoint \<Rightarrow> prompts \<Rightarrow> string \<Rightarrow> path \<Rightarrow> world
       \<Rightarrow> (py_error + string) \<times> pipeline_state" where
  "construct_and_run env ep ps user_requirement project_dir w =
     (case Orchestrator_init env of
        Inl e \<Rightarrow> (Inl e, \<lparr>pworld = w, calls = []\<rparr>)
      | Inr orch \<Rightarrow> Orchestrator_run ep ps orch user_requirement project_dir w)"

text \<open>The three gated phases: agent name, required artifact and the text of the fatal error.\<close>

definition gated_phases :: "(string \<times> string \<times> string) list" where
  "gated_phases =
     [(''Project Manager'', ''PRD.md'', ''PRD.md not created by Project Manager agent.''),
      (''Architect'', ''ARCHITECTURE.md'', ''ARCHITECTURE.md not created by Architect agent.''),
      (''Team Lead'', ''TASK_LIST.json'', ''TASK_LIST.json not created by Team Lead agent.'')]"

text \<open>The agent names of the six phases, in the order of \<open>Orchestrator.run\<close>.\<close>

definition phase_agents :: "string list" where
  "phase_agents =
     [''Project Manager'', ''Architect'', ''Team Lead'', ''Developer'',
      ''Backend Logic Validator'', ''QA Tester'']"

text \<open>
  The rest of \<open>Orchestrator.run\<close> from the Developer phase, from the Team Lead phase and
  from the Architect phase on, as named parts of the definition above, for the proofs.
\<close>

definition run_from_developer ::
    "endpoint \<Rightarrow> prompts \<Rightarrow> orchestrator \<Rightarrow> path \<Rightarrow> pipeline_state
       \<Rightarrow> (py_error + string) \<times> pipeline_state" where
  "run_from_developer ep ps orch project_dir st3 =
     (case call ep orch project_dir ''Developer'' (DEV_IMPL_PROMPT ps)
             ''Read ARCHITECTURE.md and TASK_LIST.json. Implement every source file listed.'' st3 of
        (Inl e, st4) \<Rightarrow> (Inl e, st4)
      | (Inr r4, st4) \<Rightarrow>
     (case call ep orch project_dir ''Backend Logic Validator'' (VALIDATOR_PROMPT ps)
             ''Read TASK_LIST.json, read each source file, write VALIDATION_REPORT.md.'' st4 of
        (Inl e, st5) \<Rightarrow> (Inl e, st5)
      | (Inr r5, st5) \<Rightarrow>
     (case call ep orch project_dir ''QA Tester'' (TESTER_PROMPT ps)
             ''Read TASK_LIST.json, read each source file once, write tests/test_main.py.'' st5 of
        (Inl e, st6) \<Rightarrow> (Inl e, st6)
      | (Inr r6, st6) \<Rightarrow>
          (Inr (''NeoForge AI pipeline completed. Output in: '' @ project_dir), st6))))"

definition run_from_team_lead ::
    "endpoint \<Rightarrow> prompts \<Rightarrow> orchestrator \<Rightarrow> path \<Rightarrow> pipeline_state
       \<Rightarrow> (py_error + string) \<times> pipeline_state" where
  "run_from_team_lead ep ps orch project_dir st2 =
     (case call ep orch project_dir ''Team Lead'' (TL_PROMPT ps)
             ''Read PRD.md and ARCHITECTURE.md, then write TASK_LIST.json.'' st2 of
        (Inl e, st3) \<Rightarrow> (Inl e, st3)
      | (Inr r3, st3) \<Rightarrow>
     if \<not> path_exists (pworld st3) (path_join project_dir ''TASK_LIST.json'')
     then (Inl (RuntimeError ''TASK_LIST.json not created by Team Lead agent.''), st3)
     else run_from_developer ep ps orch project_dir st3)"

definition run_from_architect ::
    "endpoint \<Rightarrow> prompts \<Rightarrow> orchestrator \<Rightarrow> path \<Rightarrow> pipeline_state
       \<Rightarrow> (py_error + string) \<times> pipeline_state" where
  "run_from_architect ep ps orch project_dir st1 =
     (case call ep orch project_dir ''Architect'' (PM_ARCH_PROMPT ps)
             ''Read PRD.md, then write ARCHITECTURE.md with the folder layout and file list.'' st1 of
        (Inl e, st2) \<Rightarrow> (Inl e, st2)
      | (Inr r2, st2) \<Rightarrow>
     if \<not> path_exists (pworld st2) (path_join project_dir ''ARCHITECTURE.md'')
     then (Inl (RuntimeError ''ARCHITECTURE.md not created by Architect agent.''), st2)
     else run_from_team_lead ep ps orch project_dir st2)"

text \<open>
  What the gates promise of a call log \<open>entries\<close> and a result \<open>r\<close>, for a list \<open>gs\<close> of gated
  phases that the first entries of the log belong to: an entry whose run returned and
  left the artifact of its phase missing is the last entry, and the result is the fatal
  error of that phase.
\<close>

definition gates_hold ::
    "path \<Rightarrow> (string \<times> string \<times> string) list \<Rightarrow> (string \<times> (py_error + string) \<times> world) list
       \<Rightarrow> (py_error + string) \<Rightarrow> bool" where
  "gates_hold project_dir gs entries r =
     (\<forall>i a text w'. i < length gs \<and> i < length entries \<and> entries ! i = (a, Inr text, w')
          \<and> \<not> path_exists w' (path_join project_dir (fst (snd (gs ! i))))
        \<longrightarrow> length entries = Suc i \<and> a = fst (gs ! i)
            \<and> r = Inl (RuntimeError (snd (snd (gs ! i)))))"

section \<open>Concrete inputs\<close>

text \<open>An environment with two usable keys, a padded one and a plain one, and a placeholder.\<close>

definition pool_env :: environ where
  "pool_env = [''GROQ_API_KEY'' \<mapsto> '' gsk_a '', ''GROQ_API_KEY_3'' \<mapsto> ''your_key'',
     ''GROQ_API_KEY_5'' \<mapsto> ''k5'']"

text \<open>A pool of two clients, and a small file system with a project directory.\<close>

definition demo_clients :: "client list" where
  "demo_clients = [\<lparr>api_key = ''k1'', base_url = ''u''\<rparr>, \<lparr>api_key = ''k2'', base_url = ''u''\<rparr>]"

definition demo_world :: world where
  "demo_world = \<lparr>fs = [([''proj''], Dir), ([''secret''], File ''s3'')], cwd = ''/home''\<rparr>"

text \<open>Endpoints: every request is rate-limited; every request fails as a malformed tool
  call; every response asks for a tool with unparsable arguments; the first response is
  terminal.\<close>

definition ep_rate_limited :: endpoint where
  "ep_rate_limited =
     \<lparr>chat = (\<lambda>n c m ms. ApiException ''Error code: 429 rate_limit_exceeded''),
      json_loads = (\<lambda>a. Decode_error), uniform_0_5 = (\<lambda>k. 1)\<rparr>"


definition bad_call :: tool_call where
  "bad_call = \<lparr>call_id = ''c1'', fn_name = ''read_file'', fn_arguments = ''{path''\<rparr>"

definition ep_tool_loop :: endpoint where
  "ep_tool_loop =
     \<lparr>chat = (\<lambda>n c m ms. Response \<lparr>msg_content = None, msg_tool_calls = [bad_call]\<rparr>),
      json_loads = (\<lambda>a. Decode_error), uniform_0_5 = (\<lambda>k. 1)\<rparr>"

definition ep_done :: endpoint where
  "ep_done =
     \<lparr>chat = (\<lambda>n c m ms. Response \<lparr>msg_content = Some ''done'', msg_tool_calls = []\<rparr>),
      json_loads = (\<lambda>a. Decode_error), uniform_0_5 = (\<lambda>k. 1)\<rparr>"

text \<open>An endpoint that cannot be reached: every request fails with a connection error.\<close>

definition ep_unreachable :: endpoint where
  "ep_unreachable =
     \<lparr>chat = (\<lambda>n c m ms. ApiException ''Connection error.''),
      json_loads = (\<lambda>a. Decode_error), uniform_0_5 = (\<lambda>k. 1)\<rparr>"

text \<open>
  A pipeline run: short prompts, an orchestrator over the two clients, and an endpoint
  whose model writes the deliverable in the first three phases and answers at once,
  without any tool call, in the other three. \<open>json_object\<close> is the text of the JSON
  object with the keys \<open>path\<close> and \<open>content\<close>, and \<open>demo_json_loads\<close> is \<open>json.loads\<close> on the
  three argument strings that this model sends.
\<close>

definition demo_prompts :: prompts where
  "demo_prompts =
     \<lparr>PM_PRD_PROMPT = ''You are a Project Manager.'',
      PM_ARCH_PROMPT = ''You are a Project Manager and System Architect.'',
      TL_PROMPT = ''You are a Team Lead.'',
      DEV_IMPL_PROMPT = ''You are a senior Developer.'',
      VALIDATOR_PROMPT = ''You are a Code Reviewer.'',
      TESTER_PROMPT = ''You are a QA Engineer.''\<rparr>"

definition demo_orchestrator :: orchestrator where
  "demo_orchestrator = \<lparr>clients = demo_clients, model = ''groq/llama-3.3-70b-versatile''\<rparr>"

definition double_quoted :: "string \<Rightarrow> string" where
  "double_quoted s = [CHR 0x22] @ s @ [CHR 0x22]"

definition json_object :: "string \<Rightarrow> string \<Rightarrow> string" where
  "json_object p c =
     ''{'' @ double_quoted ''path'' @ '': '' @ double_quoted p @ '', ''
       @ double_quoted ''content'' @ '': '' @ double_quoted c @ ''}''"

definition demo_json_loads :: "string \<Rightarrow> loads_result" where
  "demo_json_loads a =
     (if a = json_object ''PRD.md'' ''requirements''
        then Parsed_object
               [''path'' \<mapsto> JString ''PRD.md'', ''content'' \<mapsto> JString ''requirements'']
      else if a = json_object ''ARCHITECTURE.md'' ''layout''
        then Parsed_object
               [''path'' \<mapsto> JString ''ARCHITECTURE.md'', ''content'' \<mapsto> JString ''layout'']
      else if a = json_object ''TASK_LIST.json'' ''[]''
        then Parsed_object
               [''path'' \<mapsto> JString ''TASK_LIST.json'', ''content'' \<mapsto> JString ''[]'']
      else if a = ''[]'' then Parsed_other ''list''
      else Decode_error)"

definition writes :: "string \<Rightarrow> string \<Rightarrow> api_result" where
  "writes p c =
     Response \<lparr>msg_content = None,
               msg_tool_calls = [\<lparr>call_id = ''call_1'', fn_name = ''write_file'',
                                  fn_arguments = json_object p c\<rparr>]\<rparr>"




definition ep_pipeline :: endpoint where
  "ep_pipeline =
     \<lparr>chat = (\<lambda>n c m ms.
         case ms of
           [SystemMsg sp, UserMsg um] \<Rightarrow>
             (if prefix ''Write a PRD'' um then writes ''PRD.md'' ''requirements''
              else if prefix ''Read PRD.md, then'' um then writes ''ARCHITECTURE.md'' ''layout''
              else if prefix ''Read PRD.md and'' um then writes ''TASK_LIST.json'' ''[]''
              else Response \<lparr>msg_content = Some ''done'', msg_tool_calls = []\<rparr>)
         | _ \<Rightarrow> Response \<lparr>msg_content = Some ''done'', msg_tool_calls = []\<rparr>),
      json_loads = demo_json_loads, uniform_0_5 = (\<lambda>k. 1)\<rparr>"

section \<open>Properties of the progress sink\<close>

lemma last_n_length: "length (last_n n xs) = min n (length xs)"
  by (simp add: last_n_def)

lemma deque_append_last_n:
  "length d \<le> 50 \<Longrightarrow> deque_append d x = last_n 50 (d @ [x])"
  by (cases d) (auto simp: deque_append_def last_n_def)

lemma last_n_append_last_n:
  "last_n n (last_n n xs @ [x]) = last_n n (xs @ [x])"
  by (cases "length xs \<le> n") (auto simp: last_n_def Suc_diff_le)

lemma last_n_last_n: "m \<le> n \<Longrightarrow> last_n m (last_n n xs) = last_n m xs"
proof -
  assume "m \<le> n"
  then have "length xs - (length xs - n + m) + (length xs - n) = length xs - m"
    by arith
  then show ?thesis by (simp add: last_n_def)
qed

lemma viz_run_messages:
  "messages s = last_n 50 pre \<Longrightarrow> messages (viz_run us s) = last_n 50 (pre @ appended us)"
proof (induction us arbitrary: s pre)
  case Nil
  then show ?case by simp
next
  case (Cons u us)
  obtain a t m where u: "u = (a, t, m)" by (cases u)
  have len: "length (messages s) \<le> 50" using Cons.prems by (simp add: last_n_length)
  show ?case
  proof (cases "\<exists>x. m = Some x \<and> x \<noteq> []")
    case True
    then obtain x where m: "m = Some x" "x \<noteq> []" by blast
    have "messages (viz_update a t m s) = last_n 50 (pre @ [x])"
      using m len Cons.prems
      by (simp add: viz_update_def deque_append_last_n last_n_append_last_n)
    from Cons.IH [OF this] show ?thesis using u m by simp
  next
    case False
    then have same: "messages (viz_update a t m s) = last_n 50 pre" "appended (u # us) = appended us"
      using Cons.prems u by (cases m; auto simp: viz_update_def Let_def)+
    from Cons.IH [OF same(1)] show ?thesis using u same(2) by simp
  qed
qed

lemma viz_run_agent_task:
  "us \<noteq> [] \<Longrightarrow> active_agent (viz_run us s) = fst (last us)
     \<and> current_task (viz_run us s) = fst (snd (last us))"
proof (induction us arbitrary: s)
  case Nil
  then show ?case by simp
next
  case (Cons u us)
  obtain a t m where u: "u = (a, t, m)" by (cases u)
  show ?case
  proof (cases us)
    case Nil
    then show ?thesis using u by (auto simp: viz_update_def Let_def split: option.splits)
  next
    case (Cons v vs)
    then show ?thesis using Cons.IH [of "viz_update a t m s"] u by simp
  qed
qed

text \<open>
  Claim C10. In every state that a history of \<open>update\<close> calls reaches from the initial
  one, \<open>get_snapshot\<close> returns the current agent label and task text, and its log lines
  are the last five lines appended (all of them when fewer were appended), so never
  more than five, although the sink itself retains the last fifty.
\<close>

theorem snapshot_last_five_lines:
  "snap_agent (get_snapshot (viz_run us viz_initial)) = active_agent (viz_run us viz_initial)
   \<and> snap_task (get_snapshot (viz_run us viz_initial)) = current_task (viz_run us viz_initial)
   \<and> snap_logs (get_snapshot (viz_run us viz_initial)) = last_n 5 (appended us)
   \<and> length (snap_logs (get_snapshot (viz_run us viz_initial))) \<le> 5
   \<and> messages (viz_run us viz_initial) = last_n 50 (appended us)
   \<and> length (messages (viz_run us viz_initial)) \<le> 50"
proof -
  have init: "messages viz_initial = last_n 50 []"
    by (simp add: viz_initial_def last_n_def)
  have m: "messages (viz_run us viz_initial) = last_n 50 (appended us)"
    using viz_run_messages [OF init] by simp
  have five: "last_n 5 (last_n 50 (appended us)) = last_n 5 (appended us)"
    by (rule last_n_last_n) simp
  show ?thesis
    using m five by (simp add: get_snapshot_def last_n_length)
qed

section \<open>Properties of the credential pool\<close>

lemma keep_key_append:
  "keep_key ks (strip v) = ks @ map strip (filter valid_credential [v])"
  by (simp add: keep_key_def valid_credential_def)

lemma str_nat_slots:
  "str_nat 2 = ''2''" "str_nat 3 = ''3''" "str_nat 4 = ''4''" "str_nat 5 = ''5''"
  by code_simp+

lemma range_2_6: "[2..<6] = [2, 3, 4, 5::nat]"
  by code_simp

lemma pool_keys:
  "foldl (\<lambda>ks i. keep_key ks (strip (getenv env (''GROQ_API_KEY_'' @ str_nat i) '''')))
      (keep_key [] (strip (getenv env ''GROQ_API_KEY'' ''''))) [2..<6]
   = valid_credentials env"
  unfolding range_2_6
  by (simp add: str_nat_slots keep_key_append valid_credentials_def credential_slots_def
        del: str_nat.simps)

text \<open>
  Claim C9. \<open>build_client_pool\<close> raises the configuration error exactly when no slot holds
  a valid credential (non-empty after trimming, not starting with \<open>your_\<close>); otherwise
  the pool holds one client for each valid credential, trimmed, in slot order. The
  orchestrator is constructed before \<open>run\<close> is called, so with no valid credential the
  error leaves the constructor and no phase has been started.
\<close>

theorem build_client_pool_valid_credentials:
  "build_client_pool env =
     (if valid_credentials env = []
      then Inl (ValueError ''No valid GROQ API keys found. Set GROQ_API_KEY in .env'')
      else Inr (map (make_client env) (valid_credentials env)))
   \<and> construct_and_run env ep ps user_requirement project_dir w =
     (if valid_credentials env = []
      then (Inl (ValueError ''No valid GROQ API keys found. Set GROQ_API_KEY in .env''),
            \<lparr>pworld = w, calls = []\<rparr>)
      else Orchestrator_run ep ps
             \<lparr>clients = map (make_client env) (valid_credentials env),
              model = getenv env ''OPENAI_MODEL_NAME'' ''groq/llama-3.3-70b-versatile''\<rparr>
             user_requirement project_dir w)"
proof -
  have pool: "build_client_pool env =
     (if valid_credentials env = []
      then Inl (ValueError ''No valid GROQ API keys found. Set GROQ_API_KEY in .env'')
      else Inr (map (make_client env) (valid_credentials env)))"
    unfolding build_client_pool_def Let_def pool_keys by simp
  show ?thesis
    by (simp add: pool construct_and_run_def Orchestrator_init_def)
qed

lemma pool_env_valid: "valid_credentials pool_env = [''gsk_a'', ''k5'']"
  by code_simp

theorem build_client_pool_valid_credentials_witness:
  "build_client_pool pool_env =
     Inr [\<lparr>api_key = ''gsk_a'', base_url = ''https://api.groq.com/openai/v1''\<rparr>,
          \<lparr>api_key = ''k5'', base_url = ''https://api.groq.com/openai/v1''\<rparr>]
   \<and> build_client_pool (pool_env(''GROQ_API_KEY'' \<mapsto> ''   '', ''GROQ_API_KEY_5'' \<mapsto> ''your_k5''))
       = Inl (ValueError ''No valid GROQ API keys found. Set GROQ_API_KEY in .env'')"
proof -
  have none: "valid_credentials
      (pool_env(''GROQ_API_KEY'' \<mapsto> ''   '', ''GROQ_API_KEY_5'' \<mapsto> ''your_k5'')) = []"
    by code_simp
  have made: "map (make_client pool_env) [''gsk_a'', ''k5''] =
     [\<lparr>api_key = ''gsk_a'', base_url = ''https://api.groq.com/openai/v1''\<rparr>,
      \<lparr>api_key = ''k5'', base_url = ''https://api.groq.com/openai/v1''\<rparr>]"
    by code_simp
  show ?thesis
    using build_client_pool_valid_credentials [of pool_env]
      build_client_pool_valid_credentials
        [of "pool_env(''GROQ_API_KEY'' \<mapsto> ''   '', ''GROQ_API_KEY_5'' \<mapsto> ''your_k5'')"]
    by (simp only: pool_env_valid none made) simp
qed

section \<open>Properties of the execution engine\<close>

lemma demo_start:
  "client_idx (initial_loop_state sp um w) = 0" "length demo_clients = 2"
  "requests (initial_loop_state sp um w) = 0"
  "msgs (initial_loop_state sp um w) = [SystemMsg sp, UserMsg um]"
  "tool_calls_made (initial_loop_state sp um w) = 0"
  "rate_limit_hits (initial_loop_state sp um w) = 0"
  "tool_fail_retries (initial_loop_state sp um w) = 0"
  "cycle_count (initial_loop_state sp um w) = 0"
  "sleeps (initial_loop_state sp um w) = []"
  by (simp_all add: initial_loop_state_def demo_clients_def)

lemma demo_errors:
  "sublist ''rate_limit_exceeded'' ''Error code: 429 rate_limit_exceeded''"
  "\<not> sublist ''rate_limit_exceeded'' ''Error code: 400 tool_use_failed''"
  "sublist ''tool_use_failed'' ''Error code: 400 tool_use_failed''"
  by code_simp+

text \<open>
  Claim C5. In a round of the loop whose request fails with a rate-limit error, the
  rate-limit counter goes up by one and the client index moves to the next client
  (modulo the pool size), while the productive-call counter, the conversation, the
  malformed-retry counter and the file system stay as they were. This holds in every
  state and for every pool, so for every interleaving with successful rounds.
\<close>

theorem rate_limit_keeps_productive_calls:
  assumes "client_idx s < length cls"
    and "chat ep (requests s) (cls ! client_idx s) mid (msgs s) = ApiException e"
    and "sublist ''rate_limit_exceeded'' e"
  shows "\<exists>s'. agent_step ep mid cls pr s = Continue s'
     \<and> tool_calls_made s' = tool_calls_made s
     \<and> msgs s' = msgs s
     \<and> tool_fail_retries s' = tool_fail_retries s
     \<and> lworld s' = lworld s
     \<and> rate_limit_hits s' = rate_limit_hits s + 1
     \<and> client_idx s' = (client_idx s + 1) mod length cls"
  using assms by (simp add: agent_step_def Let_def)

theorem rate_limit_keeps_productive_calls_witness:
  "\<exists>s'. agent_step ep_rate_limited ''m'' demo_clients ''/proj''
          (initial_loop_state ''sys'' ''usr'' demo_world) = Continue s'
     \<and> tool_calls_made s' = 0
     \<and> msgs s' = [SystemMsg ''sys'', UserMsg ''usr'']
     \<and> rate_limit_hits s' = 1
     \<and> client_idx s' = 1"
proof -
  let ?s = "initial_loop_state ''sys'' ''usr'' demo_world"
  have h1: "client_idx ?s < length demo_clients"
    by (simp add: demo_start)
  have h2: "chat ep_rate_limited (requests ?s) (demo_clients ! client_idx ?s) ''m'' (msgs ?s)
      = ApiException ''Error code: 429 rate_limit_exceeded''"
    by (simp add: ep_rate_limited_def)
  from rate_limit_keeps_productive_calls [OF h1 h2 demo_errors(1), of "''/proj''"]
  show ?thesis by (auto simp: demo_start)
qed

lemma backoff_wait_increases:
  assumes "1 \<le> c" "0 \<le> j1" "j1 < 5" "0 \<le> j2" "j2 < 5"
  shows "backoff_wait c j1 < backoff_wait (c + 1) j2"
proof -
  obtain k where c: "c = Suc k" using assms(1) by (cases c) auto
  have "(1::real) \<le> 2 ^ k" by simp
  then have "(20::real) \<le> 20 * 2 ^ k" by simp
  with assms have "j1 < 20 * 2 ^ k + j2" by linarith
  then show ?thesis
    by (simp add: backoff_wait_def base_wait_def c)
qed

lemma wraps_iff:
  "i < n \<Longrightarrow> ((i + 1) mod n = 0) = (i = n - (1::nat))"
  by (metis Suc_eq_plus1 Suc_lessI mod_less mod_self diff_Suc_1 Suc_pred' less_nat_zero_code not_gr_zero lessI)

text \<open>
  Claim C6. In a rate-limited round the full-exhaustion branch is taken exactly when the
  client that failed is the last of the pool, so that the rotation wraps to the first:
  then the cycle counter goes up by one and the wait \<open>20 * 2 ^ (cycle - 1) + jitter\<close> is
  slept; otherwise the index moves on and nothing is slept. For jitter values in
  \<open>[0, 5)\<close> the wait of cycle \<open>c + 1\<close> is greater than the wait of cycle \<open>c\<close>, whatever
  the two draws are.
\<close>

theorem full_exhaustion_backoff:
  assumes "client_idx s < length cls"
    and "chat ep (requests s) (cls ! client_idx s) mid (msgs s) = ApiException e"
    and "sublist ''rate_limit_exceeded'' e"
  shows "(\<exists>s'. agent_step ep mid cls pr s = Continue s'
      \<and> (if client_idx s = length cls - 1
          then client_idx s' = 0 \<and> cycle_count s' = cycle_count s + 1
            \<and> sleeps s' = sleeps s @
                 [20 * 2 ^ (cycle_count s' - 1) + uniform_0_5 ep (length (sleeps s))]
          else client_idx s' = client_idx s + 1 \<and> cycle_count s' = cycle_count s
            \<and> sleeps s' = sleeps s))
    \<and> (\<forall>c j1 j2. 1 \<le> c \<and> 0 \<le> j1 \<and> j1 < 5 \<and> 0 \<le> j2 \<and> j2 < 5
          \<longrightarrow> backoff_wait c j1 < backoff_wait (c + 1) j2)"
proof -
  have w: "((client_idx s + 1) mod length cls = 0) = (client_idx s = length cls - 1)"
    using assms(1) by (rule wraps_iff)
  have nw: "client_idx s \<noteq> length cls - 1 \<Longrightarrow> (client_idx s + 1) mod length cls = client_idx s + 1"
    using assms(1) by (simp add: less_diff_conv)
  have step: "\<exists>s'. agent_step ep mid cls pr s = Continue s'
      \<and> (if client_idx s = length cls - 1
          then client_idx s' = 0 \<and> cycle_count s' = cycle_count s + 1
            \<and> sleeps s' = sleeps s @
                 [20 * 2 ^ (cycle_count s' - 1) + uniform_0_5 ep (length (sleeps s))]
          else client_idx s' = client_idx s + 1 \<and> cycle_count s' = cycle_count s
            \<and> sleeps s' = sleeps s)"
  proof (cases "client_idx s = length cls - 1")
    case True
    then show ?thesis using assms w
      by (simp add: agent_step_def Let_def backoff_wait_def base_wait_def)
  next
    case False
    then show ?thesis using assms w nw
      by (simp add: agent_step_def Let_def)
  qed
  have mono: "\<forall>c j1 j2. 1 \<le> c \<and> 0 \<le> j1 \<and> j1 < 5 \<and> 0 \<le> j2 \<and> j2 < 5
          \<longrightarrow> backoff_wait c j1 < backoff_wait (c + 1) j2"
    using backoff_wait_increases by blast
  from step mono show ?thesis by blast
qed

theorem full_exhaustion_backoff_witness:
  "(\<exists>s'. agent_step ep_rate_limited ''m'' demo_clients ''/proj''
           ((initial_loop_state ''sys'' ''usr'' demo_world)\<lparr>client_idx := 1\<rparr>) = Continue s'
      \<and> client_idx s' = 0 \<and> cycle_count s' = 1 \<and> sleeps s' = [21])
   \<and> backoff_wait 1 (49 / 10) < backoff_wait 2 0"
proof -
  let ?s = "(initial_loop_state ''sys'' ''usr'' demo_world)\<lparr>client_idx := 1\<rparr>"
  have h1: "client_idx ?s < length demo_clients"
    by (simp add: demo_start)
  have h2: "chat ep_rate_limited (requests ?s) (demo_clients ! client_idx ?s) ''m'' (msgs ?s)
      = ApiException ''Error code: 429 rate_limit_exceeded''"
    by (simp add: ep_rate_limited_def)
  have j: "uniform_0_5 ep_rate_limited 0 = 1"
    by (simp add: ep_rate_limited_def)
  note inst = full_exhaustion_backoff [OF h1 h2 demo_errors(1), of "''/proj''"]
  have step: "\<exists>s'. agent_step ep_rate_limited ''m'' demo_clients ''/proj'' ?s = Continue s'
      \<and> client_idx s' = 0 \<and> cycle_count s' = 1 \<and> sleeps s' = [21]"
    using conjunct1 [OF inst] by (auto simp: demo_start j)
  have "(1::nat) \<le> 1 \<and> (0::real) \<le> 49 / 10 \<and> (49 / 10 :: real) < 5 \<and> (0::real) \<le> 0 \<and> (0::real) < 5"
    by simp
  with conjunct2 [OF inst] have "backoff_wait 1 (49 / 10) < backoff_wait (1 + 1) 0"
    by blast
  then have "backoff_wait 1 (49 / 10) < backoff_wait 2 0"
    by (simp add: numeral_2_eq_2)
  with step show ?thesis by blast
qed








lemma step_uses_budget:
  assumes "tool_calls_made s < 25" "rate_limit_hits s < 30"
    and "agent_step ep mid cls pr s = Continue s1"
  shows "requests s1 = requests s + 1
     \<and> ((tool_calls_made s1 = tool_calls_made s + 1 \<and> rate_limit_hits s1 = rate_limit_hits s
           \<and> tool_fail_retries s1 = tool_fail_retries s)
        \<or> (rate_limit_hits s1 = rate_limit_hits s + 1 \<and> tool_calls_made s1 = tool_calls_made s
           \<and> tool_fail_retries s1 = tool_fail_retries s)
        \<or> (tool_fail_retries s1 = tool_fail_retries s + 1 \<and> tool_fail_retries s < 2
           \<and> tool_calls_made s1 = tool_calls_made s \<and> rate_limit_hits s1 = rate_limit_hits s))"
  using assms
  by (auto simp: agent_step_def Let_def max_tool_fail_retries_def
      split: if_splits api_result.splits prod.splits option.splits)

lemma step_return:
  "agent_step ep mid cls pr s = Return x s1 \<Longrightarrow>
     (\<exists>m. client_idx s < length cls
       \<and> chat ep (requests s) (cls ! client_idx s) mid (msgs s) = Response m
       \<and> msg_tool_calls m = [] \<and> x = (case msg_content m of None \<Rightarrow> [] | Some c \<Rightarrow> c))
     \<and> s1 = s\<lparr>requests := requests s + 1, cycle_count := 0,
               tool_calls_made := tool_calls_made s + 1\<rparr>"
  by (auto simp: agent_step_def Let_def
      split: if_splits api_result.splits prod.splits option.splits)

lemma str_nat_30: "str_nat 30 = ''30''"
  by code_simp

lemma next_round_counters:
  assumes "next_round ep mid cls pr s s1"
    and "requests s = tool_calls_made s + rate_limit_hits s + tool_fail_retries s"
    and "tool_fail_retries s \<le> 2"
  shows "requests s1 = tool_calls_made s1 + rate_limit_hits s1 + tool_fail_retries s1
     \<and> tool_fail_retries s1 \<le> 2 \<and> tool_calls_made s1 \<le> 25 \<and> rate_limit_hits s1 \<le> 30
     \<and> \<not> (tool_calls_made s1 = 25 \<and> rate_limit_hits s1 = 30)"
proof -
  have g: "tool_calls_made s < 25" "rate_limit_hits s < 30"
    and st: "agent_step ep mid cls pr s = Continue s1"
    using assms(1) by (simp_all add: next_round_def max_tool_calls_def max_rate_retries_def)
  from step_uses_budget [OF g st] assms(2,3) g show ?thesis by auto
qed

lemma next_round_deterministic:
  "next_round ep mid cls pr s a \<Longrightarrow> next_round ep mid cls pr s b \<Longrightarrow> a = b"
  by (simp add: next_round_def)

lemma before_the_end:
  assumes "rtranclp (next_round ep mid cls pr) s u"
    and "rtranclp (next_round ep mid cls pr) s t"
    and "\<And>v. \<not> next_round ep mid cls pr t v"
  shows "rtranclp (next_round ep mid cls pr) u t"
  using assms(1,2)
proof (induction rule: rtranclp_induct)
  case base
  then show ?case by simp
next
  case (step u u')
  from step.IH [OF step.prems] show ?case
  proof (cases rule: converse_rtranclpE)
    case base
    then show ?thesis using step.hyps(2) assms(3) by blast
  next
    case (step v)
    then show ?thesis using next_round_deterministic [OF \<open>next_round ep mid cls pr u u'\<close>] by blast
  qed
qed

lemma agent_loop_final:
  "agent_loop ep mid cls pr s = (r, s') \<Longrightarrow>
   requests s = tool_calls_made s + rate_limit_hits s + tool_fail_retries s \<Longrightarrow>
   tool_fail_retries s \<le> 2 \<Longrightarrow> tool_calls_made s \<le> 25 \<Longrightarrow> rate_limit_hits s \<le> 30 \<Longrightarrow>
   \<not> (tool_calls_made s = 25 \<and> rate_limit_hits s = 30) \<Longrightarrow>
   \<exists>t. rtranclp (next_round ep mid cls pr) s t
     \<and> requests t = tool_calls_made t + rate_limit_hits t + tool_fail_retries t
     \<and> tool_fail_retries t \<le> 2
     \<and> ((tool_calls_made t < 25 \<and> rate_limit_hits t < 30
           \<and> (\<exists>m. client_idx t < length cls
                 \<and> chat ep (requests t) (cls ! client_idx t) mid (msgs t) = Response m
                 \<and> msg_tool_calls m = []
                 \<and> r = Inr (case msg_content m of None \<Rightarrow> [] | Some c \<Rightarrow> c))
           \<and> s' = t\<lparr>requests := requests t + 1, cycle_count := 0,
                      tool_calls_made := tool_calls_made t + 1\<rparr>)
        \<or> (tool_calls_made t = 25 \<and> rate_limit_hits t < 30
           \<and> r = Inr ''Agent reached max tool calls.'' \<and> s' = t)
        \<or> (rate_limit_hits t = 30 \<and> tool_calls_made t < 25
           \<and> r = Inr ''Agent aborted: rate limit hit 30 times.'' \<and> s' = t)
        \<or> (tool_calls_made t < 25 \<and> rate_limit_hits t < 30
           \<and> (\<exists>e. agent_step ep mid cls pr t = Raise e s' \<and> r = Inl e)))"
proof (induction ep mid cls pr s rule: agent_loop.induct)
  case (1 ep mid cls pr s)
  note inv = "1.prems"(2-6)
  show ?case
  proof (cases "tool_calls_made s < 25 \<and> rate_limit_hits s < 30")
    case False
    show ?thesis
    proof (cases "rate_limit_hits s = 30")
      case True
      then have "r = Inr ''Agent aborted: rate limit hit 30 times.''" "s' = s"
        using "1.prems"(1)
        by (simp_all add: agent_loop.simps [of ep mid cls pr s] max_tool_calls_def
            max_rate_retries_def str_nat_30 del: str_nat.simps)
      moreover have "tool_calls_made s < 25" using True inv by auto
      ultimately show ?thesis using True inv by blast
    next
      case less: False
      then have c: "tool_calls_made s = 25" "rate_limit_hits s < 30"
        using False inv by auto
      then have "r = Inr ''Agent reached max tool calls.''" "s' = s"
        using "1.prems"(1)
        by (simp_all add: agent_loop.simps [of ep mid cls pr s] max_tool_calls_def
            max_rate_retries_def del: str_nat.simps)
      then show ?thesis using c inv by blast
    qed
  next
    case guard: True
    then have g: "tool_calls_made s < max_tool_calls \<and> rate_limit_hits s < max_rate_retries"
      by (simp add: max_tool_calls_def max_rate_retries_def)
    show ?thesis
    proof (cases "agent_step ep mid cls pr s")
      case (Continue s1)
      have loop: "agent_loop ep mid cls pr s1 = (r, s')"
        using "1.prems"(1) g Continue by (simp add: agent_loop.simps [of ep mid cls pr s])
      have nr: "next_round ep mid cls pr s s1"
        using g Continue by (simp add: next_round_def)
      from next_round_counters [OF nr inv(1,2)]
      have inv1: "requests s1 = tool_calls_made s1 + rate_limit_hits s1 + tool_fail_retries s1"
        "tool_fail_retries s1 \<le> 2" "tool_calls_made s1 \<le> 25" "rate_limit_hits s1 \<le> 30"
        "\<not> (tool_calls_made s1 = 25 \<and> rate_limit_hits s1 = 30)"
        by auto
      from "1.IH" [OF g Continue loop inv1] obtain t where
        t: "rtranclp (next_round ep mid cls pr) s1 t"
          "requests t = tool_calls_made t + rate_limit_hits t + tool_fail_retries t
           \<and> tool_fail_retries t \<le> 2
           \<and> ((tool_calls_made t < 25 \<and> rate_limit_hits t < 30
                 \<and> (\<exists>m. client_idx t < length cls
                       \<and> chat ep (requests t) (cls ! client_idx t) mid (msgs t) = Response m
                       \<and> msg_tool_calls m = []
                       \<and> r = Inr (case msg_content m of None \<Rightarrow> [] | Some c \<Rightarrow> c))
                 \<and> s' = t\<lparr>requests := requests t + 1, cycle_count := 0,
                            tool_calls_made := tool_calls_made t + 1\<rparr>)
              \<or> (tool_calls_made t = 25 \<and> rate_limit_hits t < 30
                 \<and> r = Inr ''Agent reached max tool calls.'' \<and> s' = t)
              \<or> (rate_limit_hits t = 30 \<and> tool_calls_made t < 25
                 \<and> r = Inr ''Agent aborted: rate limit hit 30 times.'' \<and> s' = t)
              \<or> (tool_calls_made t < 25 \<and> rate_limit_hits t < 30
                 \<and> (\<exists>e. agent_step ep mid cls pr t = Raise e s' \<and> r = Inl e)))"
        by blast
      have "rtranclp (next_round ep mid cls pr) s t"
        using nr t(1) by (rule converse_rtranclp_into_rtranclp)
      with t(2) show ?thesis by blast
    next
      case (Return x s1)
      have res: "r = Inr x" "s' = s1"
        using "1.prems"(1) g Return by (simp_all add: agent_loop.simps [of ep mid cls pr s])
      from step_return [OF Return] res guard inv(1,2)
      have "rtranclp (next_round ep mid cls pr) s s
        \<and> requests s = tool_calls_made s + rate_limit_hits s + tool_fail_retries s
        \<and> tool_fail_retries s \<le> 2
        \<and> tool_calls_made s < 25 \<and> rate_limit_hits s < 30
        \<and> (\<exists>m. client_idx s < length cls
              \<and> chat ep (requests s) (cls ! client_idx s) mid (msgs s) = Response m
              \<and> msg_tool_calls m = []
              \<and> r = Inr (case msg_content m of None \<Rightarrow> [] | Some c \<Rightarrow> c))
        \<and> s' = s\<lparr>requests := requests s + 1, cycle_count := 0,
                   tool_calls_made := tool_calls_made s + 1\<rparr>"
        by auto
      then show ?thesis by blast
    next
      case (Raise e s1)
      have res: "r = Inl e" "s' = s1"
        using "1.prems"(1) g Raise by (simp_all add: agent_loop.simps [of ep mid cls pr s])
      have "rtranclp (next_round ep mid cls pr) s s
        \<and> requests s = tool_calls_made s + rate_limit_hits s + tool_fail_retries s
        \<and> tool_fail_retries s \<le> 2
        \<and> tool_calls_made s < 25 \<and> rate_limit_hits s < 30
        \<and> (\<exists>e. agent_step ep mid cls pr s = Raise e s' \<and> r = Inl e)"
        using res Raise guard inv(1,2) by auto
      then show ?thesis by blast
    qed
  qed
qed


text \<open>
  Claim C8, as amended. \<open>run_agent\<close> always comes to an end, in exactly one of four ways,
  told apart by the state \<open>t\<close> at the head of the loop in which the run ends; every
  state that the loop passes through lies on the way to \<open>t\<close>. Either the request made in
  \<open>t\<close> is answered without tool calls and the text of the answer is returned; or the
  productive-call counter has reached 25 and the sentinel for it is returned; or the
  rate-limit counter has reached 30 and the sentinel for it is returned; or the round
  made in \<open>t\<close> raises and the exception leaves \<open>run_agent\<close>. Every round after which the
  loop goes on sends one request and adds one to exactly one of the three bounded
  counters, so a run sends at most 25 + 30 + 2 requests before the one it ends with.
\<close>

theorem run_agent_terminates:
  "(\<exists>t r s'. run_agent ep system_prompt user_message mdl cls pr w = (r, s')
      \<and> rtranclp (next_round ep (remove_groq mdl) cls pr)
           (initial_loop_state system_prompt user_message w) t
      \<and> (\<forall>u. rtranclp (next_round ep (remove_groq mdl) cls pr)
                 (initial_loop_state system_prompt user_message w) u
             \<longrightarrow> rtranclp (next_round ep (remove_groq mdl) cls pr) u t)
      \<and> requests t = tool_calls_made t + rate_limit_hits t + tool_fail_retries t
      \<and> tool_fail_retries t \<le> 2
      \<and> ((tool_calls_made t < 25 \<and> rate_limit_hits t < 30
            \<and> (\<exists>m. client_idx t < length cls
                  \<and> chat ep (requests t) (cls ! client_idx t) (remove_groq mdl) (msgs t)
                      = Response m
                  \<and> msg_tool_calls m = []
                  \<and> r = Inr (case msg_content m of None \<Rightarrow> [] | Some c \<Rightarrow> c))
            \<and> s' = t\<lparr>requests := requests t + 1, cycle_count := 0,
                       tool_calls_made := tool_calls_made t + 1\<rparr>)
         \<or> (tool_calls_made t = 25 \<and> rate_limit_hits t < 30
            \<and> r = Inr ''Agent reached max tool calls.'' \<and> s' = t)
         \<or> (rate_limit_hits t = 30 \<and> tool_calls_made t < 25
            \<and> r = Inr ''Agent aborted: rate limit hit 30 times.'' \<and> s' = t)
         \<or> (tool_calls_made t < 25 \<and> rate_limit_hits t < 30
            \<and> (\<exists>e. agent_step ep (remove_groq mdl) cls pr t = Raise e s' \<and> r = Inl e))))
   \<and> (\<forall>s s1. next_round ep (remove_groq mdl) cls pr s s1 \<longrightarrow>
        requests s1 = requests s + 1
        \<and> ((tool_calls_made s1 = tool_calls_made s + 1 \<and> rate_limit_hits s1 = rate_limit_hits s
              \<and> tool_fail_retries s1 = tool_fail_retries s)
           \<or> (rate_limit_hits s1 = rate_limit_hits s + 1 \<and> tool_calls_made s1 = tool_calls_made s
              \<and> tool_fail_retries s1 = tool_fail_retries s)
           \<or> (tool_fail_retries s1 = tool_fail_retries s + 1 \<and> tool_fail_retries s < 2
              \<and> tool_calls_made s1 = tool_calls_made s \<and> rate_limit_hits s1 = rate_limit_hits s)))"
proof -
  let ?mid = "remove_groq mdl"
  let ?s0 = "initial_loop_state system_prompt user_message w"
  let ?next = "next_round ep ?mid cls pr"
  obtain r s' where run: "run_agent ep system_prompt user_message mdl cls pr w = (r, s')"
    by (cases "run_agent ep system_prompt user_message mdl cls pr w")
  have loop: "agent_loop ep ?mid cls pr ?s0 = (r, s')"
    using run by (simp add: run_agent_def)
  have start: "requests ?s0 = tool_calls_made ?s0 + rate_limit_hits ?s0 + tool_fail_retries ?s0"
    "tool_fail_retries ?s0 \<le> 2" "tool_calls_made ?s0 \<le> 25" "rate_limit_hits ?s0 \<le> 30"
    "\<not> (tool_calls_made ?s0 = 25 \<and> rate_limit_hits ?s0 = 30)"
    by (simp_all add: initial_loop_state_def)
  from agent_loop_final [OF loop start] obtain t where
    reach: "rtranclp ?next ?s0 t"
    and count: "requests t = tool_calls_made t + rate_limit_hits t + tool_fail_retries t"
      "tool_fail_retries t \<le> 2"
    and fin: "(tool_calls_made t < 25 \<and> rate_limit_hits t < 30
            \<and> (\<exists>m. client_idx t < length cls
                  \<and> chat ep (requests t) (cls ! client_idx t) ?mid (msgs t) = Response m
                  \<and> msg_tool_calls m = []
                  \<and> r = Inr (case msg_content m of None \<Rightarrow> [] | Some c \<Rightarrow> c))
            \<and> s' = t\<lparr>requests := requests t + 1, cycle_count := 0,
                       tool_calls_made := tool_calls_made t + 1\<rparr>)
         \<or> (tool_calls_made t = 25 \<and> rate_limit_hits t < 30
            \<and> r = Inr ''Agent reached max tool calls.'' \<and> s' = t)
         \<or> (rate_limit_hits t = 30 \<and> tool_calls_made t < 25
            \<and> r = Inr ''Agent aborted: rate limit hit 30 times.'' \<and> s' = t)
         \<or> (tool_calls_made t < 25 \<and> rate_limit_hits t < 30
            \<and> (\<exists>e. agent_step ep ?mid cls pr t = Raise e s' \<and> r = Inl e))"
    by blast
  have stuck: "\<not> ?next t v" for v
    using fin
    by (auto simp: next_round_def agent_step_def Let_def max_tool_calls_def max_rate_retries_def)
  have before: "\<forall>u. rtranclp ?next ?s0 u \<longrightarrow> rtranclp ?next u t"
    using before_the_end [OF _ reach stuck] by blast
  have rounds: "\<forall>s s1. ?next s s1 \<longrightarrow>
        requests s1 = requests s + 1
        \<and> ((tool_calls_made s1 = tool_calls_made s + 1 \<and> rate_limit_hits s1 = rate_limit_hits s
              \<and> tool_fail_retries s1 = tool_fail_retries s)
           \<or> (rate_limit_hits s1 = rate_limit_hits s + 1 \<and> tool_calls_made s1 = tool_calls_made s
              \<and> tool_fail_retries s1 = tool_fail_retries s)
           \<or> (tool_fail_retries s1 = tool_fail_retries s + 1 \<and> tool_fail_retries s < 2
              \<and> tool_calls_made s1 = tool_calls_made s \<and> rate_limit_hits s1 = rate_limit_hits s))"
  proof (intro allI impI)
    fix s s1
    assume "?next s s1"
    then have "tool_calls_made s < 25" "rate_limit_hits s < 30"
      "agent_step ep ?mid cls pr s = Continue s1"
      by (simp_all add: next_round_def max_tool_calls_def max_rate_retries_def)
    then show "requests s1 = requests s + 1
        \<and> ((tool_calls_made s1 = tool_calls_made s + 1 \<and> rate_limit_hits s1 = rate_limit_hits s
              \<and> tool_fail_retries s1 = tool_fail_retries s)
           \<or> (rate_limit_hits s1 = rate_limit_hits s + 1 \<and> tool_calls_made s1 = tool_calls_made s
              \<and> tool_fail_retries s1 = tool_fail_retries s)
           \<or> (tool_fail_retries s1 = tool_fail_retries s + 1 \<and> tool_fail_retries s < 2
              \<and> tool_calls_made s1 = tool_calls_made s \<and> rate_limit_hits s1 = rate_limit_hits s))"
      by (rule step_uses_budget)
  qed
  from run reach before count fin rounds show ?thesis by blast
qed

theorem run_agent_terminates_witness:
  "fst (run_agent ep_done ''sys'' ''usr'' ''groq/m'' demo_clients ''/proj'' demo_world)
     = Inr ''done''
   \<and> fst (run_agent ep_tool_loop ''sys'' ''usr'' ''groq/m'' demo_clients ''/proj'' demo_world)
     = Inr ''Agent reached max tool calls.''
   \<and> fst (run_agent ep_rate_limited ''sys'' ''usr'' ''groq/m'' demo_clients ''/proj'' demo_world)
     = Inr ''Agent aborted: rate limit hit 30 times.''
   \<and> (\<exists>t. rtranclp (next_round ep_rate_limited ''m'' demo_clients ''/proj'')
             (initial_loop_state ''sys'' ''usr'' demo_world) t
        \<and> rate_limit_hits t = 30 \<and> tool_calls_made t = 0 \<and> requests t = 30
        \<and> t = snd (run_agent ep_rate_limited ''sys'' ''usr'' ''groq/m'' demo_clients ''/proj''
                 demo_world))
   \<and> (\<exists>s1. next_round ep_rate_limited ''m'' demo_clients ''/proj''
              (initial_loop_state ''sys'' ''usr'' demo_world) s1
         \<and> requests s1 = 1 \<and> rate_limit_hits s1 = 1 \<and> tool_calls_made s1 = 0
         \<and> tool_fail_retries s1 = 0)"
proof -
  let ?run = "run_agent ep_rate_limited ''sys'' ''usr'' ''groq/m'' demo_clients ''/proj'' demo_world"
  note inst = run_agent_terminates
    [of ep_rate_limited "''sys''" "''usr''" "''groq/m''" demo_clients "''/proj''" demo_world]
  have m: "remove_groq ''groq/m'' = ''m''" by code_simp
  have fin: "fst (run_agent ep_done ''sys'' ''usr'' ''groq/m'' demo_clients ''/proj'' demo_world)
     = Inr ''done''"
    by code_simp
  have tools: "fst (run_agent ep_tool_loop ''sys'' ''usr'' ''groq/m'' demo_clients ''/proj''
      demo_world) = Inr ''Agent reached max tool calls.''"
    by code_simp
  have limited: "fst ?run = Inr ''Agent aborted: rate limit hit 30 times.''"
    "tool_calls_made (snd ?run) = 0" "tool_fail_retries (snd ?run) = 0"
    by code_simp+
  from conjunct1 [OF inst] obtain t r s' where
    run: "?run = (r, s')"
    and reach: "rtranclp (next_round ep_rate_limited ''m'' demo_clients ''/proj'')
           (initial_loop_state ''sys'' ''usr'' demo_world) t"
    and count: "requests t = tool_calls_made t + rate_limit_hits t + tool_fail_retries t"
    and cases: "(tool_calls_made t < 25 \<and> rate_limit_hits t < 30
            \<and> (\<exists>m. client_idx t < length demo_clients
                  \<and> chat ep_rate_limited (requests t) (demo_clients ! client_idx t) ''m'' (msgs t)
                      = Response m
                  \<and> msg_tool_calls m = []
                  \<and> r = Inr (case msg_content m of None \<Rightarrow> [] | Some c \<Rightarrow> c))
            \<and> s' = t\<lparr>requests := requests t + 1, cycle_count := 0,
                       tool_calls_made := tool_calls_made t + 1\<rparr>)
         \<or> (tool_calls_made t = 25 \<and> rate_limit_hits t < 30
            \<and> r = Inr ''Agent reached max tool calls.'' \<and> s' = t)
         \<or> (rate_limit_hits t = 30 \<and> tool_calls_made t < 25
            \<and> r = Inr ''Agent aborted: rate limit hit 30 times.'' \<and> s' = t)
         \<or> (tool_calls_made t < 25 \<and> rate_limit_hits t < 30
            \<and> (\<exists>e. agent_step ep_rate_limited ''m'' demo_clients ''/proj'' t = Raise e s'
                  \<and> r = Inl e))"
    unfolding m by blast
  have r: "r = Inr ''Agent aborted: rate limit hit 30 times.''"
    and z: "tool_calls_made s' = 0" "tool_fail_retries s' = 0" and s': "s' = snd ?run"
    using limited run by simp_all
  from cases r z have "rate_limit_hits t = 30 \<and> s' = t"
    by (auto simp: ep_rate_limited_def)
  with reach count z s' have "rtranclp (next_round ep_rate_limited ''m'' demo_clients ''/proj'')
             (initial_loop_state ''sys'' ''usr'' demo_world) t
        \<and> rate_limit_hits t = 30 \<and> tool_calls_made t = 0 \<and> requests t = 30
        \<and> t = snd ?run"
    by auto
  then have ended: "\<exists>t. rtranclp (next_round ep_rate_limited ''m'' demo_clients ''/proj'')
             (initial_loop_state ''sys'' ''usr'' demo_world) t
        \<and> rate_limit_hits t = 30 \<and> tool_calls_made t = 0 \<and> requests t = 30
        \<and> t = snd ?run"
    by blast
  let ?s0 = "initial_loop_state ''sys'' ''usr'' demo_world"
  let ?s1 = "?s0\<lparr>requests := 1, rate_limit_hits := 1, client_idx := 1\<rparr>"
  have "agent_step ep_rate_limited ''m'' demo_clients ''/proj'' ?s0 = Continue ?s1"
    by (simp add: agent_step_def Let_def demo_start demo_errors ep_rate_limited_def)
  then have one: "next_round ep_rate_limited ''m'' demo_clients ''/proj'' ?s0 ?s1"
    by (simp add: next_round_def demo_start max_tool_calls_def max_rate_retries_def)
  from conjunct2 [OF inst, unfolded m, rule_format, OF one]
  have "requests ?s1 = 1 \<and> rate_limit_hits ?s1 = 1 \<and> tool_calls_made ?s1 = 0
      \<and> tool_fail_retries ?s1 = 0"
    by (simp add: demo_start)
  with one have first_round: "\<exists>s1. next_round ep_rate_limited ''m'' demo_clients ''/proj'' ?s0 s1
         \<and> requests s1 = 1 \<and> rate_limit_hits s1 = 1 \<and> tool_calls_made s1 = 0
         \<and> tool_fail_retries s1 = 0"
    by blast
  from fin tools limited(1) ended first_round show ?thesis by blast
qed

text \<open>
  The claim C8 as it was worded, with exactly three ways to end, fails: when the first
  request fails with an error that is neither a rate limit nor a malformed tool call,
  the run ends with that exception. No text is returned and neither budget is used up.
\<close>

theorem run_ends_with_exception:
  "fst (run_agent ep_unreachable ''sys'' ''usr'' ''groq/m'' demo_clients ''/proj'' demo_world)
     = Inl (ApiError ''Connection error.'')
   \<and> tool_calls_made (snd (run_agent ep_unreachable ''sys'' ''usr'' ''groq/m'' demo_clients
        ''/proj'' demo_world)) = 0
   \<and> rate_limit_hits (snd (run_agent ep_unreachable ''sys'' ''usr'' ''groq/m'' demo_clients
        ''/proj'' demo_world)) = 0"
  by code_simp


section \<open>Properties of the sandboxed file access\<close>

lemma split_sep_nonempty: "split_sep s \<noteq> []"
  by (induction s) (auto split: list.splits)

lemma split_sep_no_sep: "c \<in> set (split_sep s) \<Longrightarrow> sep \<notin> set c"
  by (induction s arbitrary: c) (auto split: list.splits if_splits)

lemma split_sep_single: "sep \<notin> set x \<Longrightarrow> split_sep x = [x]"
  by (induction x) auto

lemma split_sep_append: "sep \<notin> set x \<Longrightarrow> split_sep (x @ sep # r) = x # split_sep r"
  by (induction x) (auto simp: split_sep_nonempty split: list.splits)

lemma split_join: "cs \<noteq> [] \<Longrightarrow> \<forall>c \<in> set cs. sep \<notin> set c \<Longrightarrow> split_sep (join_sep cs) = cs"
proof (induction cs rule: join_sep.induct)
  case 1 then show ?case by simp
next
  case (2 x) then show ?case by (simp add: split_sep_single)
next
  case (3 x y ys)
  then show ?case by (simp add: split_sep_append)
qed

lemma path_comps_join: "clean cs \<Longrightarrow> path_comps (sep # join_sep cs) = cs"
proof (cases cs)
  case Nil then show ?thesis by (simp add: path_comps_def)
next
  case (Cons a as)
  assume c: "clean cs"
  then have "split_sep (join_sep cs) = cs"
    using Cons by (intro split_join) (auto simp: clean_def)
  moreover have "filter (\<lambda>c. c \<noteq> [] \<and> c \<noteq> ''.'') cs = cs"
    using c by (auto simp: clean_def intro: filter_True)
  ultimately show ?thesis by (simp add: path_comps_def)
qed

lemma path_comps_sep: "path_comps (sep # s) = path_comps s"
  by (simp add: path_comps_def)

lemma normpath_fold_clean:
  "clean acc \<Longrightarrow> \<forall>x \<in> set xs. sep \<notin> set x \<Longrightarrow> clean (foldl (normpath_step True) acc xs)"
proof (induction xs arbitrary: acc)
  case Nil then show ?case by simp
next
  case (Cons x xs)
  have "clean (normpath_step True acc x)"
    using Cons.prems by (auto simp: normpath_step_def clean_def dest: in_set_butlastD)
  then show ?case using Cons by simp
qed

lemma normpath_fold_id:
  "clean acc \<Longrightarrow> clean xs \<Longrightarrow> foldl (normpath_step True) acc xs = acc @ xs"
proof (induction xs arbitrary: acc)
  case Nil then show ?case by simp
next
  case (Cons x xs)
  have "normpath_step True acc x = acc @ [x]"
    using Cons.prems by (auto simp: normpath_step_def clean_def)
  moreover have "clean (acc @ [x])" "clean xs"
    using Cons.prems by (auto simp: clean_def)
  ultimately show ?case using Cons.IH by simp
qed

lemma initial_slashes_abs: "isabs p \<Longrightarrow> initial_slashes p = 1 \<or> initial_slashes p = 2"
  by (simp add: initial_slashes_def isabs_def)

lemma normpath_abs:
  assumes "isabs p"
  shows "\<exists>cs. clean cs \<and> path_comps (normpath p) = cs \<and> isabs (normpath p)"
proof -
  let ?cs = "foldl (normpath_step True) [] (split_sep p)"
  have c: "clean ?cs"
    by (rule normpath_fold_clean) (auto simp: clean_def split_sep_no_sep)
  have ne: "p \<noteq> []" using assms by (auto simp: isabs_def)
  from initial_slashes_abs [OF assms] show ?thesis
  proof
    assume n: "initial_slashes p = 1"
    then have "normpath p = sep # join_sep ?cs"
      using ne by (simp add: normpath_def Let_def)
    then show ?thesis using c by (simp add: path_comps_join isabs_def)
  next
    assume n: "initial_slashes p = 2"
    then have np: "normpath p = sep # sep # join_sep ?cs"
      using ne by (simp add: normpath_def Let_def numeral_2_eq_2)
    have "path_comps (sep # sep # join_sep ?cs) = path_comps (sep # join_sep ?cs)"
      by (rule path_comps_sep)
    also have "\<dots> = ?cs" using c by (rule path_comps_join)
    finally show ?thesis using c np by (simp add: isabs_def)
  qed
qed

lemma normpath_clean_id:
  assumes "clean cs"
  shows "normpath (sep # join_sep cs) = sep # join_sep cs"
proof -
  let ?p = "sep # join_sep cs"
  have no2: "\<not> prefix [sep, sep] ?p"
  proof (cases cs)
    case Nil then show ?thesis by simp
  next
    case (Cons a as)
    then obtain h t where a: "a = h # t" "h \<noteq> sep"
      using assms by (cases a) (auto simp: clean_def)
    then show ?thesis using Cons by (cases as) auto
  qed
  then have n: "initial_slashes ?p = 1"
    by (simp add: initial_slashes_def)
  have "foldl (normpath_step True) [] (split_sep ?p) = cs"
  proof (cases cs)
    case Nil then show ?thesis by (simp add: normpath_step_def)
  next
    case (Cons a as)
    then have "split_sep (join_sep cs) = cs"
      using assms by (intro split_join) (auto simp: clean_def)
    then have "foldl (normpath_step True) [] (split_sep ?p) = foldl (normpath_step True) [] cs"
      by (simp add: normpath_step_def)
    also have "\<dots> = cs"
      using normpath_fold_id [of "[]" cs] assms by (simp add: clean_def)
    finally show ?thesis .
  qed
  then show ?thesis using n by (simp add: normpath_def Let_def)
qed

lemma common_prefix_prefix: "prefix (common_prefix x y) x \<and> prefix (common_prefix x y) y"
  by (induction x y rule: common_prefix.induct) auto

lemma clean_prefix: "clean ys \<Longrightarrow> prefix xs ys \<Longrightarrow> clean xs"
  by (auto simp: clean_def dest: set_mono_prefix)

lemma check_passes_within:
  assumes ok: "assert_within_root abs_path action rt = None"
    and ab: "isabs y" and n: "abs_path = normpath y"
  shows "within_root cw rt abs_path"
proof -
  from normpath_abs [OF ab] n obtain cs where
    cs: "clean cs" "path_comps abs_path = cs" "isabs abs_path" by auto
  let ?common = "common_prefix (min (path_comps abs_path) (path_comps rt))
      (max (path_comps abs_path) (path_comps rt))"
  from ok have same: "isabs abs_path = isabs rt"
    by (auto simp: assert_within_root_def commonpath_def split: if_splits option.splits)
  with ok cs(3) have rt: "rt = sep # join_sep ?common"
    by (auto simp: assert_within_root_def commonpath_def Let_def split: if_splits)
  have pre: "prefix ?common (path_comps abs_path)"
    using common_prefix_prefix [of "path_comps abs_path" "path_comps rt"]
      common_prefix_prefix [of "path_comps rt" "path_comps abs_path"]
    by (auto simp: min_def max_def)
  then have cc: "clean ?common" using cs clean_prefix by blast
  have "abspath cw rt = rt"
    using same cs(3) normpath_clean_id [OF cc] rt by (simp add: abspath_def)
  moreover have "path_comps rt = ?common"
    using path_comps_join [OF cc] rt by simp
  ultimately show ?thesis using pre by (simp add: within_root_def)
qed

lemma isabs_join_cwd: "isabs c \<Longrightarrow> isabs (if isabs x then x else path_join c x)"
  by (auto simp: isabs_def path_join_def prefix_def)

text \<open>
  Claim C2. Let the process have an absolute working directory. Whenever the path that
  \<open>write_file\<close> or \<open>read_file\<close> resolves (the join of the effective root and the given
  path, made absolute) does not lie within the effective root, the operation returns the
  security-violation text as its result and the file system is left as it was: nothing
  is written and no directory is created. The root itself counts as lying within the
  root.
\<close>

theorem escaping_path_refused:
  assumes "isabs (cwd w)"
    and "\<not> within_root (cwd w) (effective_root project_root w)
            (abspath (cwd w) (path_join (effective_root project_root w) p))"
  shows "write_file p content project_root w = (security_violation ''write'', w)
     \<and> read_file p project_root w = security_violation ''read''"
proof -
  let ?rt = "effective_root project_root w"
  let ?y = "if isabs (path_join ?rt p) then path_join ?rt p else path_join (cwd w) (path_join ?rt p)"
  let ?abs = "abspath (cwd w) (path_join ?rt p)"
  have y: "isabs ?y" using assms(1) by (rule isabs_join_cwd)
  have n: "?abs = normpath ?y" by (simp add: abspath_def)
  have "assert_within_root ?abs action ?rt \<noteq> None" for action
    using check_passes_within [OF _ y n] assms(2) by blast
  then have "assert_within_root ?abs action ?rt = Some (security_violation action)" for action
    by (auto simp: assert_within_root_def split: option.splits if_splits)
  then show ?thesis
    by (simp add: write_file_def read_file_def Let_def)
qed

theorem escaping_path_refused_witness:
  "write_file ''../secret'' ''x'' (Some ''/proj'') demo_world
     = (''Error: Security violation. Cannot write outside project root.'', demo_world)
   \<and> read_file ''../secret'' (Some ''/proj'') demo_world
     = ''Error: Security violation. Cannot read outside project root.''"
proof -
  have h1: "isabs (cwd demo_world)"
    by code_simp
  have h2: "\<not> within_root (cwd demo_world) (effective_root (Some ''/proj'') demo_world)
      (abspath (cwd demo_world) (path_join (effective_root (Some ''/proj'') demo_world) ''../secret''))"
    by code_simp
  from escaping_path_refused [OF h1 h2, of "''x''"] show ?thesis
    by (simp add: security_violation_def)
qed




lemma resolve_abs [simp]: "isabs x \<Longrightarrow> resolve (w\<lparr>cwd := d\<rparr>) x = resolve w x"
  by (simp add: resolve_def abspath_def)

lemma resolve_fs [simp]: "resolve (w\<lparr>fs := t\<rparr>) x = resolve w x"
  by (simp add: resolve_def)


















text \<open>
  Claim C3 does not hold of \<open>list_dir\<close>: it resolves the path as the other two operations
  do, but never calls \<open>_assert_within_root\<close>. With the project root \<open>/proj\<close> the path \<open>..\<close>
  resolves to \<open>/\<close>, outside the root, and \<open>list_dir\<close> returns the names in that directory,
  where \<open>read_file\<close> refuses a path that escapes in the same way.
\<close>

theorem list_dir_escapes_root:
  "list_dir ''..'' (Some ''/proj'') demo_world = ''proj'' @ [CHR 0x0A] @ ''secret''
   \<and> read_file ''../secret'' (Some ''/proj'') demo_world
       = ''Error: Security violation. Cannot read outside project root.''
   \<and> \<not> within_root (cwd demo_world) ''/proj'' (abspath (cwd demo_world) (path_join ''/proj'' ''..''))"
  by code_simp

section \<open>Properties of the phase pipeline\<close>

lemma call_log:
  "call ep orch dir a p m st = (r, st') \<Longrightarrow> calls st' = calls st @ [(a, r, pworld st')]"
  by (auto simp: call_def split: prod.splits)

lemma Orchestrator_run_parts:
  "Orchestrator_run ep ps orch user_requirement project_dir w =
     (case make_subdirs w project_dir PROJECT_SUBDIRS of
        (Some e, w0) \<Rightarrow> (Inl (OSError e), \<lparr>pworld = w0, calls = []\<rparr>)
      | (None, w0) \<Rightarrow>
     (case call ep orch project_dir ''Project Manager'' (PM_PRD_PROMPT ps)
             (''Write a PRD for this project: '' @ user_requirement) \<lparr>pworld = w0, calls = []\<rparr> of
        (Inl e, st1) \<Rightarrow> (Inl e, st1)
      | (Inr r1, st1) \<Rightarrow>
     if \<not> path_exists (pworld st1) (path_join project_dir ''PRD.md'')
     then (Inl (RuntimeError ''PRD.md not created by Project Manager agent.''), st1)
     else run_from_architect ep ps orch project_dir st1))"
  unfolding Orchestrator_run_def run_from_architect_def run_from_team_lead_def
    run_from_developer_def ..

lemma gates_hold_nil: "gates_hold dir gs [] r" "gates_hold dir [] es r"
  by (simp_all add: gates_hold_def)

lemma gates_hold_cons:
  assumes "\<And>t. ra = Inr t \<Longrightarrow> \<not> path_exists wa (path_join dir (fst (snd g))) \<Longrightarrow>
      es = [] \<and> a = fst g \<and> r = Inl (RuntimeError (snd (snd g)))"
    and "gates_hold dir gs es r"
  shows "gates_hold dir (g # gs) ((a, ra, wa) # es) r"
proof -
  have "length ((a, ra, wa) # es) = Suc i \<and> b = fst ((g # gs) ! i)
      \<and> r = Inl (RuntimeError (snd (snd ((g # gs) ! i))))"
    if h: "i < length (g # gs)" "i < length ((a, ra, wa) # es)"
      "((a, ra, wa) # es) ! i = (b, Inr t, w')"
      "\<not> path_exists w' (path_join dir (fst (snd ((g # gs) ! i))))"
    for i b t w'
  proof (cases i)
    case 0
    then show ?thesis using h assms(1) by auto
  next
    case (Suc j)
    then have "j < length gs \<and> j < length es \<and> es ! j = (b, Inr t, w')
        \<and> \<not> path_exists w' (path_join dir (fst (snd (gs ! j))))"
      using h by simp
    with assms(2) have "length es = Suc j \<and> b = fst (gs ! j)
        \<and> r = Inl (RuntimeError (snd (snd (gs ! j))))"
      unfolding gates_hold_def by blast
    then show ?thesis using Suc by simp
  qed
  then show ?thesis unfolding gates_hold_def by blast
qed

lemma from_developer_log:
  assumes "run_from_developer ep ps orch dir st3 = (r, st)"
  shows "\<exists>rest. calls st = calls st3 @ rest
      \<and> prefix (map fst rest) [''Developer'', ''Backend Logic Validator'', ''QA Tester'']"
  using assms unfolding run_from_developer_def
  by (auto dest!: call_log split: prod.splits sum.splits)

lemma from_team_lead_log:
  assumes "run_from_team_lead ep ps orch dir st2 = (r, st)"
  shows "\<exists>rest. calls st = calls st2 @ rest
      \<and> prefix (map fst rest)
          [''Team Lead'', ''Developer'', ''Backend Logic Validator'', ''QA Tester'']
      \<and> gates_hold dir
          [(''Team Lead'', ''TASK_LIST.json'', ''TASK_LIST.json not created by Team Lead agent.'')]
          rest r"
proof -
  let ?g = "(''Team Lead'', ''TASK_LIST.json'', ''TASK_LIST.json not created by Team Lead agent.'')"
  obtain rc stc where c: "call ep orch dir ''Team Lead'' (TL_PROMPT ps)
      ''Read PRD.md and ARCHITECTURE.md, then write TASK_LIST.json.'' st2 = (rc, stc)"
    by (cases "call ep orch dir ''Team Lead'' (TL_PROMPT ps)
      ''Read PRD.md and ARCHITECTURE.md, then write TASK_LIST.json.'' st2")
  note lg = call_log [OF c]
  show ?thesis
  proof (cases "\<exists>t. rc = Inr t \<and> path_exists (pworld stc) (path_join dir ''TASK_LIST.json'')")
    case True
    then have "run_from_developer ep ps orch dir stc = (r, st)"
      using assms c by (auto simp: run_from_team_lead_def)
    from from_developer_log [OF this] obtain rest where
      rest: "calls st = calls stc @ rest"
        "prefix (map fst rest) [''Developer'', ''Backend Logic Validator'', ''QA Tester'']"
      by blast
    have "gates_hold dir [?g] ((''Team Lead'', rc, pworld stc) # rest) r"
      using True by (intro gates_hold_cons gates_hold_nil) auto
    then show ?thesis using rest lg by auto
  next
    case False
    then have fin: "st = stc"
      "\<And>t. rc = Inr t \<Longrightarrow> r = Inl (RuntimeError ''TASK_LIST.json not created by Team Lead agent.'')"
      using assms c by (auto simp: run_from_team_lead_def split: sum.splits if_splits)
    have "gates_hold dir [?g] ((''Team Lead'', rc, pworld stc) # []) r"
      using fin by (intro gates_hold_cons gates_hold_nil) auto
    then show ?thesis using fin lg by auto
  qed
qed

lemma from_architect_log:
  assumes "run_from_architect ep ps orch dir st1 = (r, st)"
  shows "\<exists>rest. calls st = calls st1 @ rest
      \<and> prefix (map fst rest)
          [''Architect'', ''Team Lead'', ''Developer'', ''Backend Logic Validator'', ''QA Tester'']
      \<and> gates_hold dir
          [(''Architect'', ''ARCHITECTURE.md'', ''ARCHITECTURE.md not created by Architect agent.''),
           (''Team Lead'', ''TASK_LIST.json'', ''TASK_LIST.json not created by Team Lead agent.'')]
          rest r"
proof -
  let ?g = "(''Architect'', ''ARCHITECTURE.md'', ''ARCHITECTURE.md not created by Architect agent.'')"
  let ?g3 = "(''Team Lead'', ''TASK_LIST.json'', ''TASK_LIST.json not created by Team Lead agent.'')"
  obtain rc stc where c: "call ep orch dir ''Architect'' (PM_ARCH_PROMPT ps)
      ''Read PRD.md, then write ARCHITECTURE.md with the folder layout and file list.'' st1
      = (rc, stc)"
    by (cases "call ep orch dir ''Architect'' (PM_ARCH_PROMPT ps)
      ''Read PRD.md, then write ARCHITECTURE.md with the folder layout and file list.'' st1")
  note lg = call_log [OF c]
  show ?thesis
  proof (cases "\<exists>t. rc = Inr t \<and> path_exists (pworld stc) (path_join dir ''ARCHITECTURE.md'')")
    case True
    then have "run_from_team_lead ep ps orch dir stc = (r, st)"
      using assms c by (auto simp: run_from_architect_def)
    from from_team_lead_log [OF this] obtain rest where
      rest: "calls st = calls stc @ rest"
        "prefix (map fst rest)
          [''Team Lead'', ''Developer'', ''Backend Logic Validator'', ''QA Tester'']"
        "gates_hold dir [?g3] rest r"
      by blast
    have "gates_hold dir [?g, ?g3] ((''Architect'', rc, pworld stc) # rest) r"
      using True rest(3) by (intro gates_hold_cons) auto
    then show ?thesis using rest lg by auto
  next
    case False
    then have fin: "st = stc"
      "\<And>t. rc = Inr t \<Longrightarrow> r = Inl (RuntimeError ''ARCHITECTURE.md not created by Architect agent.'')"
      using assms c by (auto simp: run_from_architect_def split: sum.splits if_splits)
    have "gates_hold dir [?g, ?g3] ((''Architect'', rc, pworld stc) # []) r"
      using fin by (intro gates_hold_cons gates_hold_nil) auto
    then show ?thesis using fin lg by auto
  qed
qed

lemma run_log:
  assumes "Orchestrator_run ep ps orch req dir w = (r, st)"
  shows "prefix (map fst (calls st)) phase_agents \<and> gates_hold dir gated_phases (calls st) r"
proof -
  let ?g = "(''Project Manager'', ''PRD.md'', ''PRD.md not created by Project Manager agent.'')"
  obtain me w0 where m: "make_subdirs w dir PROJECT_SUBDIRS = (me, w0)"
    by (cases "make_subdirs w dir PROJECT_SUBDIRS")
  show ?thesis
  proof (cases me)
    case (Some e)
    then have "calls st = []"
      using assms m by (auto simp: Orchestrator_run_parts)
    then show ?thesis by (simp add: gates_hold_nil)
  next
    case None
    let ?st0 = "\<lparr>pworld = w0, calls = []\<rparr>"
    obtain rc stc where c: "call ep orch dir ''Project Manager'' (PM_PRD_PROMPT ps)
        (''Write a PRD for this project: '' @ req) ?st0 = (rc, stc)"
      by (cases "call ep orch dir ''Project Manager'' (PM_PRD_PROMPT ps)
        (''Write a PRD for this project: '' @ req) ?st0")
    have lg: "calls stc = [(''Project Manager'', rc, pworld stc)]"
      using call_log [OF c] by simp
    show ?thesis
    proof (cases "\<exists>t. rc = Inr t \<and> path_exists (pworld stc) (path_join dir ''PRD.md'')")
      case True
      then have "run_from_architect ep ps orch dir stc = (r, st)"
        using assms m None c by (auto simp: Orchestrator_run_parts)
      from from_architect_log [OF this] obtain rest where
        rest: "calls st = calls stc @ rest"
          "prefix (map fst rest)
            [''Architect'', ''Team Lead'', ''Developer'', ''Backend Logic Validator'', ''QA Tester'']"
          "gates_hold dir (tl gated_phases) rest r"
        by (auto simp: gated_phases_def)
      have "gates_hold dir (?g # tl gated_phases) ((''Project Manager'', rc, pworld stc) # rest) r"
        using True rest(3) by (intro gates_hold_cons) auto
      then show ?thesis using rest lg by (auto simp: gated_phases_def phase_agents_def)
    next
      case False
      then have fin: "st = stc"
        "\<And>t. rc = Inr t \<Longrightarrow> r = Inl (RuntimeError ''PRD.md not created by Project Manager agent.'')"
        using assms m None c by (auto simp: Orchestrator_run_parts split: sum.splits if_splits)
      have "gates_hold dir (?g # tl gated_phases) ((''Project Manager'', rc, pworld stc) # []) r"
        using fin by (intro gates_hold_cons gates_hold_nil) auto
      then show ?thesis using fin lg by (auto simp: gated_phases_def phase_agents_def)
    qed
  qed
qed

text \<open>
  Claim C1, as amended. In every run of the pipeline the phases are invoked in their
  fixed order, and for each of the first three phases (Project Manager, Architect, Team
  Lead): if the run of the engine for that phase returned and the artifact of the phase
  (\<open>PRD.md\<close>, \<open>ARCHITECTURE.md\<close>, \<open>TASK_LIST.json\<close>) does not exist in the file system
  that the run left, then this invocation is the last one of the log, so no later phase
  was started, and the pipeline ends with the fatal error of that phase.
\<close>

theorem gated_phase_missing_artifact_aborts:
  assumes "Orchestrator_run ep ps orch user_requirement project_dir w = (r, st)"
    and "i < 3" and "i < length (calls st)"
    and "calls st ! i = (a, Inr t, w')"
    and "\<not> path_exists w' (path_join project_dir (fst (snd (gated_phases ! i))))"
  shows "length (calls st) = Suc i
     \<and> a = fst (gated_phases ! i)
     \<and> r = Inl (RuntimeError (snd (snd (gated_phases ! i))))
     \<and> prefix (map fst (calls st)) phase_agents"
proof -
  have g: "gates_hold project_dir gated_phases (calls st) r"
    and p: "prefix (map fst (calls st)) phase_agents"
    using run_log [OF assms(1)] by auto
  have "i < length gated_phases" using assms(2) by (simp add: gated_phases_def)
  with g assms(3,4,5) have "length (calls st) = Suc i \<and> a = fst (gated_phases ! i)
     \<and> r = Inl (RuntimeError (snd (snd (gated_phases ! i))))"
    unfolding gates_hold_def by blast
  with p show ?thesis by simp
qed

theorem gated_phase_missing_artifact_aborts_witness:
  "fst (Orchestrator_run ep_done demo_prompts demo_orchestrator ''build a counter CLI''
         ''/proj'' demo_world)
     = Inl (RuntimeError ''PRD.md not created by Project Manager agent.'')
   \<and> length (calls (snd (Orchestrator_run ep_done demo_prompts demo_orchestrator
         ''build a counter CLI'' ''/proj'' demo_world))) = 1"
proof -
  let ?run = "Orchestrator_run ep_done demo_prompts demo_orchestrator ''build a counter CLI''
     ''/proj'' demo_world"
  have h1: "?run = (fst ?run, snd ?run)" by simp
  have h2: "(0::nat) < 3" by simp
  have h3: "0 < length (calls (snd ?run))" by code_simp
  have h4: "calls (snd ?run) ! 0
      = (''Project Manager'', Inr ''done'', snd (snd (calls (snd ?run) ! 0)))"
    by code_simp
  have h5: "\<not> path_exists (snd (snd (calls (snd ?run) ! 0)))
      (path_join ''/proj'' (fst (snd (gated_phases ! 0))))"
    by code_simp
  from gated_phase_missing_artifact_aborts [OF h1 h2 h3 h4 h5]
  show ?thesis by (simp add: gated_phases_def)
qed

text \<open>
  The claim C1 as it was worded, for every phase, fails: the Developer, Validator and
  Tester phases have no existence check. In this run the first three deliverables are
  written and the model of the last three phases answers without writing anything:
  the Validator run returns, \<open>VALIDATION_REPORT.md\<close> does not exist, and yet the QA Tester
  is started and the pipeline reports completion.
\<close>

theorem ungated_phase_missing_artifact_continues:
  "fst (Orchestrator_run ep_pipeline demo_prompts demo_orchestrator ''build a counter CLI''
         ''/proj'' demo_world)
     = Inr ''NeoForge AI pipeline completed. Output in: /proj''
   \<and> map fst (calls (snd (Orchestrator_run ep_pipeline demo_prompts demo_orchestrator
         ''build a counter CLI'' ''/proj'' demo_world))) = phase_agents
   \<and> fst (snd (calls (snd (Orchestrator_run ep_pipeline demo_prompts demo_orchestrator
         ''build a counter CLI'' ''/proj'' demo_world)) ! 4)) = Inr ''done''
   \<and> \<not> path_exists (snd (snd (calls (snd (Orchestrator_run ep_pipeline demo_prompts
         demo_orchestrator ''build a counter CLI'' ''/proj'' demo_world)) ! 4)))
         (path_join ''/proj'' ''VALIDATION_REPORT.md'')"
  by code_simp

end
